theory Spec2Isabelle
  imports Complex_Main "HOL-Library.AList"
begin

section \<open>JavaScript values\<close>

text \<open>
  A JavaScript number is modelled as an exact real or one of the three special values
  of IEEE arithmetic. The rounding error of finite double arithmetic, overflow to
  infinity and the sign of zero are not modelled: a zero divisor is taken as +0.
  The aggregation and the handlers are modelled in this arithmetic, and no property
  stated of them depends on a finite result being exact. The values of
  \<^verbatim>\<open>normalizeOpScore\<close> do depend on the rounding: for them the function is modelled
  again in the arithmetic of doubles, further below.
\<close>

datatype jsnum = Fin real | PosInf | NegInf | NaN

fun js_neg :: "jsnum \<Rightarrow> jsnum" where
  "js_neg (Fin a) = Fin (- a)"
| "js_neg PosInf = NegInf"
| "js_neg NegInf = PosInf"
| "js_neg NaN = NaN"

fun js_add :: "jsnum \<Rightarrow> jsnum \<Rightarrow> jsnum" where
  "js_add (Fin a) (Fin b) = Fin (a + b)"
| "js_add NaN _ = NaN"
| "js_add _ NaN = NaN"
| "js_add PosInf NegInf = NaN"
| "js_add NegInf PosInf = NaN"
| "js_add PosInf _ = PosInf"
| "js_add _ PosInf = PosInf"
| "js_add NegInf _ = NegInf"
| "js_add _ NegInf = NegInf"

definition js_sub :: "jsnum \<Rightarrow> jsnum \<Rightarrow> jsnum" where
  "js_sub a b = js_add a (js_neg b)"

text \<open>The infinity with the sign of a non-zero real, or of the product of two signs.\<close>

definition signed_inf :: "bool \<Rightarrow> jsnum" where
  "signed_inf negative = (if negative then NegInf else PosInf)"

fun js_mul :: "jsnum \<Rightarrow> jsnum \<Rightarrow> jsnum" where
  "js_mul (Fin a) (Fin b) = Fin (a * b)"
| "js_mul NaN _ = NaN"
| "js_mul _ NaN = NaN"
| "js_mul (Fin a) PosInf = (if a = 0 then NaN else signed_inf (a < 0))"
| "js_mul (Fin a) NegInf = (if a = 0 then NaN else signed_inf (0 < a))"
| "js_mul PosInf (Fin b) = (if b = 0 then NaN else signed_inf (b < 0))"
| "js_mul NegInf (Fin b) = (if b = 0 then NaN else signed_inf (0 < b))"
| "js_mul PosInf PosInf = PosInf"
| "js_mul NegInf NegInf = PosInf"
| "js_mul PosInf NegInf = NegInf"
| "js_mul NegInf PosInf = NegInf"

fun js_div :: "jsnum \<Rightarrow> jsnum \<Rightarrow> jsnum" where
  "js_div (Fin a) (Fin b) =
     (if b = 0 then (if a = 0 then NaN else signed_inf (a < 0)) else Fin (a / b))"
| "js_div NaN _ = NaN"
| "js_div _ NaN = NaN"
| "js_div (Fin a) PosInf = Fin 0"
| "js_div (Fin a) NegInf = Fin 0"
| "js_div PosInf (Fin b) = signed_inf (b < 0)"
| "js_div NegInf (Fin b) = signed_inf (0 \<le> b)"
| "js_div PosInf PosInf = NaN"
| "js_div PosInf NegInf = NaN"
| "js_div NegInf PosInf = NaN"
| "js_div NegInf NegInf = NaN"

text \<open>\<^verbatim>\<open>Math.round\<close>: the nearest integer, a tie going up.\<close>

fun js_round :: "jsnum \<Rightarrow> jsnum" where
  "js_round (Fin a) = Fin (of_int \<lfloor>a + 1 / 2\<rfloor>)"
| "js_round x = x"

fun js_lt :: "jsnum \<Rightarrow> jsnum \<Rightarrow> bool" where
  "js_lt (Fin a) (Fin b) = (a < b)"
| "js_lt NaN _ = False"
| "js_lt _ NaN = False"
| "js_lt _ NegInf = False"
| "js_lt PosInf _ = False"
| "js_lt NegInf _ = True"
| "js_lt _ PosInf = True"

fun js_le :: "jsnum \<Rightarrow> jsnum \<Rightarrow> bool" where
  "js_le (Fin a) (Fin b) = (a \<le> b)"
| "js_le NaN _ = False"
| "js_le _ NaN = False"
| "js_le NegInf _ = True"
| "js_le _ PosInf = True"
| "js_le _ NegInf = False"
| "js_le PosInf _ = False"

definition js_gt :: "jsnum \<Rightarrow> jsnum \<Rightarrow> bool" where
  "js_gt a b = js_lt b a"

definition js_ge :: "jsnum \<Rightarrow> jsnum \<Rightarrow> bool" where
  "js_ge a b = js_le b a"

section \<open>Score normalisation: normalizeOpScore\<close>

text \<open>
  The function \<^verbatim>\<open>normalizeOpScore\<close> of the script that rebuilds the players table (the
  second part of \<^verbatim>\<open>src/frontend/src/GraphPage.tsx\<close>). An anchor of its calibration table
  is a raw score and the grade paired with it.
\<close>

record threshold =
  score :: real
  grade :: real

definition thresholds :: "threshold list" where
  "thresholds =
    [\<lparr>score = 1252.11, grade = 10.0\<rparr>,
     \<lparr>score = 874.65, grade = 9.0\<rparr>,
     \<lparr>score = 751.02, grade = 8.0\<rparr>,
     \<lparr>score = 675.50, grade = 7.0\<rparr>,
     \<lparr>score = 600, grade = 6.0\<rparr>,
     \<lparr>score = 512.91, grade = 5.0\<rparr>,
     \<lparr>score = 424.93, grade = 4.0\<rparr>,
     \<lparr>score = 350, grade = 3.0\<rparr>,
     \<lparr>score = 280, grade = 2.0\<rparr>,
     \<lparr>score = 220, grade = 1.0\<rparr>,
     \<lparr>score = 146.92, grade = 0.0\<rparr>]"

text \<open>The body of the loop when the bracket test succeeds.\<close>

definition interpolate :: "threshold \<Rightarrow> threshold \<Rightarrow> jsnum \<Rightarrow> jsnum" where
  "interpolate upper lower rawOpScore =
    (let scoreRange = js_sub (Fin (score upper)) (Fin (score lower));
         gradeRange = js_sub (Fin (grade upper)) (Fin (grade lower));
         scoreOffset = js_sub rawOpScore (Fin (score lower));
         interpolatedGrade =
           js_add (Fin (grade lower)) (js_mul (js_div scoreOffset scoreRange) gradeRange)
     in js_div (js_round (js_mul interpolatedGrade (Fin 100))) (Fin 100))"

text \<open>
  The loop over \<open>i = 0 .. length - 2\<close>, as a recursion over the remaining table: its
  first two entries are \<open>thresholds[i]\<close> and \<open>thresholds[i + 1]\<close>. Running off the end is
  the fallback \<open>return 0.0\<close>.
\<close>

fun find_bracket :: "threshold list \<Rightarrow> jsnum \<Rightarrow> jsnum" where
  "find_bracket (upper # lower # rest) rawOpScore =
     (if js_le rawOpScore (Fin (score upper)) \<and> js_gt rawOpScore (Fin (score lower))
      then interpolate upper lower rawOpScore
      else find_bracket (lower # rest) rawOpScore)"
| "find_bracket _ rawOpScore = Fin 0.0"

definition normalizeOpScore :: "jsnum \<Rightarrow> jsnum" where
  "normalizeOpScore rawOpScore =
     (if js_ge rawOpScore (Fin 1252.11) then Fin 10.0
      else if js_le rawOpScore (Fin 146.92) then Fin 0.0
      else find_bracket thresholds rawOpScore)"

text \<open>
  The specification's reading of the same function on a real input: the linear
  interpolation between two anchors, and rounding to two decimal places.
\<close>

definition linear_interpolation :: "threshold \<Rightarrow> threshold \<Rightarrow> real \<Rightarrow> real" where
  "linear_interpolation upper lower x =
     grade lower + (x - score lower) / (score upper - score lower) * (grade upper - grade lower)"

definition round2 :: "real \<Rightarrow> real" where
  "round2 g = of_int \<lfloor>g * 100 + 1 / 2\<rfloor> / 100"

definition adjacent_anchors :: "(threshold \<times> threshold) list" where
  "adjacent_anchors = zip thresholds (tl thresholds)"

section \<open>Score normalisation in the arithmetic of doubles\<close>

text \<open>
  The values that \<^verbatim>\<open>normalizeOpScore\<close> returns depend on the rounding of the arithmetic
  of doubles (binary64, rounding to nearest, ties to even). The section above models the
  function in exact arithmetic, which is what the properties of the aggregation need;
  this section models the same function in the arithmetic of doubles, for the property
  of its values. The range of the exponent is not modelled: after the two comparisons
  at the start of the function its input lies between the lowest and the highest
  anchor, and no value that it computes is large enough to overflow or small enough to
  be subnormal.

  \<open>expo y\<close> is the exponent of a positive real: \<open>2 ^ expo y \<le> y < 2 ^ (expo y + 1)\<close>.
\<close>

function expo :: "real \<Rightarrow> int" where
  "expo y = (if 2 \<le> y then expo (y / 2) + 1
             else if 0 < y \<and> y < 1 then expo (2 * y) - 1
             else 0)"
  by pat_completeness auto
termination
proof (relation "measure (\<lambda>y. if 2 \<le> y then nat \<lfloor>y\<rfloor> else if 0 < y \<and> y < 1 then nat \<lfloor>1 / y\<rfloor> else 0)")
  show "wf (measure (\<lambda>y. if 2 \<le> y then nat \<lfloor>y\<rfloor> else if 0 < y \<and> y < 1 then nat \<lfloor>1 / y\<rfloor> else 0))"
    by simp
next
  fix y :: real
  assume y: "2 \<le> y"
  have "\<lfloor>y / 2\<rfloor> < \<lfloor>y\<rfloor>"
  proof -
    have "y / 2 \<le> y - 1" using y by simp
    then have "\<lfloor>y / 2\<rfloor> \<le> \<lfloor>y - 1\<rfloor>" by (rule floor_mono)
    then show ?thesis by simp
  qed
  moreover have "0 < \<lfloor>y\<rfloor>" using y by simp
  ultimately show "(y / 2, y) \<in> measure (\<lambda>y. if 2 \<le> y then nat \<lfloor>y\<rfloor> else if 0 < y \<and> y < 1 then nat \<lfloor>1 / y\<rfloor> else 0)"
    using y by auto
next
  fix y :: real
  assume y: "\<not> 2 \<le> y" "0 < y \<and> y < 1"
  have one: "1 \<le> \<lfloor>1 / y\<rfloor>" using y by (simp add: le_floor_iff)
  have "\<lfloor>1 / (2 * y)\<rfloor> < \<lfloor>1 / y\<rfloor>"
  proof (cases "2 \<le> 1 / y")
    case True
    then have "1 / y / 2 \<le> 1 / y - 1" by simp
    then have "\<lfloor>1 / y / 2\<rfloor> \<le> \<lfloor>1 / y - 1\<rfloor>" by (rule floor_mono)
    then show ?thesis by (simp add: mult.commute)
  next
    case False
    then have "1 / (2 * y) < 1" using y by (simp add: field_simps)
    then have "\<lfloor>1 / (2 * y)\<rfloor> < 1" by (simp add: floor_less_iff)
    with one show ?thesis by linarith
  qed
  then show "(2 * y, y) \<in> measure (\<lambda>y. if 2 \<le> y then nat \<lfloor>y\<rfloor> else if 0 < y \<and> y < 1 then nat \<lfloor>1 / y\<rfloor> else 0)"
    using y one by auto
qed

declare expo.simps [simp del]

text \<open>The nearest integer, a tie going to the even one.\<close>

definition round_even :: "real \<Rightarrow> int" where
  "round_even z =
     (let f = \<lfloor>z\<rfloor>
      in if z - of_int f < 1 / 2 then f
         else if 1 / 2 < z - of_int f then f + 1
         else if even f then f else f + 1)"

text \<open>
  The double nearest to a real, a tie going to the even significand: the real is scaled
  to a significand of 53 bits, rounded, and scaled back.
\<close>

definition rnd :: "real \<Rightarrow> real" where
  "rnd y =
     (if y = 0 then 0
      else let ulp = 2 powi (expo \<bar>y\<bar> - 52)
           in of_int (round_even (y / ulp)) * ulp)"

text \<open>
  A result of arithmetic is rounded to a double; the special values are as they were.
  A decimal literal of the source stands for the double nearest to it. The four
  operations of doubles are the exact operations followed by the rounding.
\<close>

fun js_rnd :: "jsnum \<Rightarrow> jsnum" where
  "js_rnd (Fin a) = Fin (rnd a)"
| "js_rnd x = x"

definition literal :: "real \<Rightarrow> jsnum" where
  "literal x = Fin (rnd x)"

definition dbl_add :: "jsnum \<Rightarrow> jsnum \<Rightarrow> jsnum" where
  "dbl_add a b = js_rnd (js_add a b)"

definition dbl_sub :: "jsnum \<Rightarrow> jsnum \<Rightarrow> jsnum" where
  "dbl_sub a b = js_rnd (js_sub a b)"

definition dbl_mul :: "jsnum \<Rightarrow> jsnum \<Rightarrow> jsnum" where
  "dbl_mul a b = js_rnd (js_mul a b)"

definition dbl_div :: "jsnum \<Rightarrow> jsnum \<Rightarrow> jsnum" where
  "dbl_div a b = js_rnd (js_div a b)"

text \<open>
  \<^verbatim>\<open>normalizeOpScore\<close> again, line by line as above, every literal a double and every
  operation rounded. \<^verbatim>\<open>Math.round\<close> gives the exact nearest integer of a double.
\<close>

definition interpolate_double :: "threshold \<Rightarrow> threshold \<Rightarrow> jsnum \<Rightarrow> jsnum" where
  "interpolate_double upper lower rawOpScore =
    (let scoreRange = dbl_sub (literal (score upper)) (literal (score lower));
         gradeRange = dbl_sub (literal (grade upper)) (literal (grade lower));
         scoreOffset = dbl_sub rawOpScore (literal (score lower));
         interpolatedGrade =
           dbl_add (literal (grade lower)) (dbl_mul (dbl_div scoreOffset scoreRange) gradeRange)
     in dbl_div (js_round (dbl_mul interpolatedGrade (literal 100))) (literal 100))"

fun find_bracket_double :: "threshold list \<Rightarrow> jsnum \<Rightarrow> jsnum" where
  "find_bracket_double (upper # lower # rest) rawOpScore =
     (if js_le rawOpScore (literal (score upper)) \<and> js_gt rawOpScore (literal (score lower))
      then interpolate_double upper lower rawOpScore
      else find_bracket_double (lower # rest) rawOpScore)"
| "find_bracket_double _ rawOpScore = literal 0.0"

definition normalizeOpScore_double :: "jsnum \<Rightarrow> jsnum" where
  "normalizeOpScore_double rawOpScore =
     (if js_ge rawOpScore (literal 1252.11) then literal 10.0
      else if js_le rawOpScore (literal 146.92) then literal 0.0
      else find_bracket_double thresholds rawOpScore)"

section \<open>Match documents\<close>

text \<open>
  A participant entry of a match document, after \<^verbatim>\<open>JSON.parse\<close>. A field that the
  document does not have reads as \<^verbatim>\<open>undefined\<close>: \<open>None\<close>. String fields hold
  strings and numeric fields hold finite numbers.
\<close>

record participant =
  puuid :: "string option"
  riotIdGameName :: "string option"
  riotIdTagline :: "string option"
  kills :: "real option"
  deaths :: "real option"
  assists :: "real option"
  goldEarned :: "real option"
  visionScore :: "real option"

text \<open>
  An element of \<^verbatim>\<open>info.participants\<close>: an object, or \<^verbatim>\<open>null\<close>, on which
  reading \<^verbatim>\<open>p.puuid\<close> throws a TypeError.
\<close>

datatype entry = Obj participant | JNull

text \<open>
  The content of a file of the match directory: text that \<^verbatim>\<open>JSON.parse\<close> rejects;
  an object without \<^verbatim>\<open>info\<close> or without \<^verbatim>\<open>info.participants\<close>; or a match with
  its \<^verbatim>\<open>info.gameDuration\<close> (absent: \<open>None\<close>) and its array of participant entries.
  Other shapes are not modelled (a document that is \<^verbatim>\<open>null\<close>, participants that are
  not an array).
\<close>

datatype document = Unparseable | NoParticipants | Match "real option" "entry list"

datatype js_error = SyntaxError | TypeError

text \<open>The directory listing in the order of \<^verbatim>\<open>readdirSync\<close>: file name and content.\<close>

type_synonym directory = "(string \<times> document) list"

definition endsWith :: "string \<Rightarrow> string \<Rightarrow> bool" where
  "endsWith s suffix =
     (length suffix \<le> length s \<and> drop (length s - length suffix) s = suffix)"

definition json_files :: "directory \<Rightarrow> directory" where
  "json_files dir = filter (\<lambda>f. endsWith (fst f) ''.json'') dir"

text \<open>Truthiness of a string-valued field: absent and the empty string are falsy.\<close>

definition truthy :: "string option \<Rightarrow> bool" where
  "truthy v = (case v of None \<Rightarrow> False | Some s \<Rightarrow> s \<noteq> [])"

text \<open>\<^verbatim>\<open>v || 'Unknown'\<close> on a string field, \<^verbatim>\<open>v || 0\<close> on a numeric field.\<close>

definition or_unknown :: "string option \<Rightarrow> string" where
  "or_unknown v = (case v of None \<Rightarrow> ''Unknown'' | Some s \<Rightarrow> if s = [] then ''Unknown'' else s)"

definition or_zero :: "real option \<Rightarrow> jsnum" where
  "or_zero v = (case v of None \<Rightarrow> Fin 0 | Some x \<Rightarrow> if x = 0 then Fin 0 else Fin x)"

text \<open>A numeric field used in arithmetic as it is: \<^verbatim>\<open>undefined\<close> converts to NaN.\<close>

definition to_number :: "real option \<Rightarrow> jsnum" where
  "to_number v = (case v of None \<Rightarrow> NaN | Some x \<Rightarrow> Fin x)"

text \<open>A string field inside a template literal.\<close>

definition to_string :: "string option \<Rightarrow> string" where
  "to_string v = (case v of None \<Rightarrow> ''undefined'' | Some s \<Rightarrow> s)"

section \<open>The players table\<close>

text \<open>
  A row of the table \<^verbatim>\<open>players\<close>. The column \<^verbatim>\<open>names\<close> holds a JSON array of names
  in the refined database (a list here) and one plain name in the server's database.
  \<open>None\<close> is SQL NULL. A NaN that is bound to a REAL column is stored as NULL: in a
  score column NaN stands for that NULL. NULL in \<^verbatim>\<open>match_count\<close> is not modelled.
\<close>

record 'names player_row =
  row_puuid :: "string option"
  row_names :: 'names
  row_feedscore :: jsnum
  row_opscore :: jsnum
  row_country :: "string option"
  row_match_count :: int

type_synonym refined_table = "string list player_row list"

text \<open>\<^verbatim>\<open>UPDATE players SET opscore = 0, feedscore = 0, match_count = 0 WHERE 1=1\<close>\<close>

definition reset_scores :: "'n player_row list \<Rightarrow> 'n player_row list" where
  "reset_scores tbl =
     map (\<lambda>r. r\<lparr>row_opscore := Fin 0, row_feedscore := Fin 0, row_match_count := 0\<rparr>) tbl"

text \<open>
  \<^verbatim>\<open>INSERT OR REPLACE\<close>: the rows in conflict on the primary key are deleted, then the
  row is added. A NULL key conflicts with nothing.
\<close>

definition insert_or_replace :: "'n player_row \<Rightarrow> 'n player_row list \<Rightarrow> 'n player_row list" where
  "insert_or_replace r tbl =
     (case row_puuid r of
        None \<Rightarrow> tbl @ [r]
      | Some k \<Rightarrow> filter (\<lambda>x. row_puuid x \<noteq> Some k) tbl @ [r])"

text \<open>
  Plain \<^verbatim>\<open>INSERT\<close>: a conflict on the primary key fails the statement and leaves the
  table as it was.
\<close>

definition insert_row :: "'n player_row \<Rightarrow> 'n player_row list \<Rightarrow> 'n player_row list" where
  "insert_row r tbl =
     (case row_puuid r of
        None \<Rightarrow> tbl @ [r]
      | Some k \<Rightarrow> if Some k \<in> set (map row_puuid tbl) then tbl else tbl @ [r])"

section \<open>Full rebuild: normalizePlayersByPuuid\<close>

text \<open>
  The function \<^verbatim>\<open>normalizePlayersByPuuid\<close> (the second part of
  \<^verbatim>\<open>src/frontend/src/GraphPage.tsx\<close>).

  A value of \<^verbatim>\<open>playersMap\<close>. \<open>names\<close> is a JavaScript Set: its elements in insertion
  order, without repetition.
\<close>

record aggregate =
  names :: "string list"
  feedscoreSum :: jsnum
  opscoreSum :: jsnum
  match_count :: int
  country :: "string option"

definition set_add :: "'a list \<Rightarrow> 'a \<Rightarrow> 'a list" where
  "set_add xs x = (if x \<in> set xs then xs else xs @ [x])"

datatype console_line =
  Skipping_invalid_structure string
  | Skipping_participant string
  | Error_processing_file string js_error

text \<open>
  The variables of a run. \<open>playersMap\<close> is a JavaScript Map: an association list in
  insertion order, where setting a present key keeps its place. \<open>console\<close> holds the
  lines of \<^verbatim>\<open>console.warn\<close> and \<^verbatim>\<open>console.error\<close>.
\<close>

record run =
  playersMap :: "(string \<times> aggregate) list"
  totalMatches :: nat
  totalPlayers :: nat
  console :: "console_line list"

definition display_name :: "participant \<Rightarrow> string" where
  "display_name p = or_unknown (riotIdGameName p) @ ''#'' @ or_unknown (riotIdTagline p)"

definition feedscore_of :: "participant \<Rightarrow> jsnum" where
  "feedscore_of p =
     js_sub (or_zero (deaths p))
       (js_mul (js_add (or_zero (kills p)) (or_zero (assists p))) (Fin 0.35))"

definition rawOpScore_of :: "jsnum \<Rightarrow> participant \<Rightarrow> jsnum" where
  "rawOpScore_of gameDurationMinutes p =
     js_add
       (js_add
          (js_add (or_zero (kills p)) (js_mul (or_zero (assists p)) (Fin 0.965)))
          (js_div (or_zero (goldEarned p)) gameDurationMinutes))
       (js_mul (or_zero (visionScore p)) (Fin 0.15))"

text \<open>The body of the loop over the participants, for an entry that is an object.\<close>

definition for_participant :: "string \<Rightarrow> jsnum \<Rightarrow> participant \<Rightarrow> run \<Rightarrow> run" where
  "for_participant file gameDurationMinutes p st =
     (if \<not> truthy (puuid p)
      then st\<lparr>console := console st @ [Skipping_participant file]\<rparr>
      else
        let player_id = the (puuid p);
            name = display_name p;
            feedscore = feedscore_of p;
            rawOpScore = rawOpScore_of gameDurationMinutes p
        in case map_of (playersMap st) player_id of
             None \<Rightarrow>
               st\<lparr>playersMap :=
                    AList.update player_id
                      \<lparr>names = [name], feedscoreSum = feedscore, opscoreSum = rawOpScore,
                       match_count = 1, country = None\<rparr>
                      (playersMap st),
                  totalPlayers := totalPlayers st + 1\<rparr>
           | Some player \<Rightarrow>
               st\<lparr>playersMap :=
                    AList.update player_id
                      (player\<lparr>names := set_add (names player) name,
                              feedscoreSum := js_add (feedscoreSum player) feedscore,
                              opscoreSum := js_add (opscoreSum player) rawOpScore,
                              match_count := match_count player + 1\<rparr>)
                      (playersMap st)\<rparr>)"

text \<open>
  The loop over the participants. The exception of a \<^verbatim>\<open>null\<close> entry leaves the loop
  with the map as the earlier entries made it.
\<close>

fun for_participants :: "string \<Rightarrow> jsnum \<Rightarrow> entry list \<Rightarrow> run \<Rightarrow> js_error option \<times> run" where
  "for_participants file gameDurationMinutes [] st = (None, st)"
| "for_participants file gameDurationMinutes (JNull # ps) st = (Some TypeError, st)"
| "for_participants file gameDurationMinutes (Obj p # ps) st =
     for_participants file gameDurationMinutes ps (for_participant file gameDurationMinutes p st)"

text \<open>The body of the loop over the files, with its \<^verbatim>\<open>try\<close> and \<^verbatim>\<open>catch\<close>.\<close>

fun for_file :: "string \<times> document \<Rightarrow> run \<Rightarrow> run" where
  "for_file (file, Unparseable) st =
     st\<lparr>console := console st @ [Error_processing_file file SyntaxError]\<rparr>"
| "for_file (file, NoParticipants) st =
     st\<lparr>console := console st @ [Skipping_invalid_structure file]\<rparr>"
| "for_file (file, Match gameDurationSeconds ps) st =
     (let st1 = st\<lparr>totalMatches := totalMatches st + 1\<rparr>;
          gameDurationMinutes = js_div (to_number gameDurationSeconds) (Fin 60)
      in case for_participants file gameDurationMinutes ps st1 of
           (None, st2) \<Rightarrow> st2
         | (Some fileErr, st2) \<Rightarrow>
             st2\<lparr>console := console st2 @ [Error_processing_file file fileErr]\<rparr>)"

definition aggregate_files :: "directory \<Rightarrow> run" where
  "aggregate_files dir =
     fold for_file (json_files dir)
       \<lparr>playersMap = [], totalMatches = 0, totalPlayers = 0, console = []\<rparr>"

text \<open>The row that the last loop binds to the insert statement for one map entry.\<close>

definition aggregate_row :: "string \<times> aggregate \<Rightarrow> string list player_row" where
  "aggregate_row e =
     (let data = snd e;
          avgFeed = js_div (feedscoreSum data) (Fin (of_int (match_count data)));
          avgRawOp = js_div (opscoreSum data) (Fin (of_int (match_count data)));
          normalizedOp = normalizeOpScore avgRawOp
      in \<lparr>row_puuid = Some (fst e), row_names = names data, row_feedscore = avgFeed,
          row_opscore = normalizedOp, row_country = country data,
          row_match_count = match_count data\<rparr>)"

text \<open>
  The run: the table after it, and the variables of the run. The statements run in
  the order in which they are issued. The statistics that the run prints, the log file
  of raw scores, and errors of the database are not modelled.
\<close>

definition normalizePlayersByPuuid :: "refined_table \<Rightarrow> directory \<Rightarrow> refined_table \<times> run" where
  "normalizePlayersByPuuid tbl dir =
     (let tbl0 = reset_scores tbl;
          st = aggregate_files dir
      in (fold insert_or_replace (map aggregate_row (playersMap st)) tbl0, st))"

section \<open>First insertion: addNewPlayersFromMatches\<close>

text \<open>
  The function \<^verbatim>\<open>addNewPlayersFromMatches\<close> (the first part of
  \<^verbatim>\<open>src/backend/add_new_players.js\<close>).

  A value of the Set \<^verbatim>\<open>existingPuuids\<close>: \<^verbatim>\<open>null\<close> read from a NULL column,
  \<^verbatim>\<open>undefined\<close> read from a participant without the field, or a string. The Set
  tells them apart.
\<close>

datatype key = Null | Undefined | Str string

definition column_key :: "string option \<Rightarrow> key" where
  "column_key v = (case v of None \<Rightarrow> Null | Some s \<Rightarrow> Str s)"

definition field_key :: "string option \<Rightarrow> key" where
  "field_key v = (case v of None \<Rightarrow> Undefined | Some s \<Rightarrow> Str s)"

record adding =
  existingPuuids :: "key set"
  players :: refined_table
  newPlayerCount :: nat

definition new_player_row :: "participant \<Rightarrow> string list player_row" where
  "new_player_row p =
     (let name = to_string (riotIdGameName p) @ ''#'' @ to_string (riotIdTagline p);
          feedscore =
            js_sub (to_number (deaths p))
              (js_mul (js_add (to_number (kills p)) (to_number (assists p))) (Fin 0.35));
          opscore =
            js_add
              (js_add
                 (js_add (to_number (kills p)) (js_mul (to_number (assists p)) (Fin 0.965)))
                 (js_div (to_number (goldEarned p)) (Fin 560)))
              (js_mul (to_number (visionScore p)) (Fin 0.15))
      in \<lparr>row_puuid = puuid p, row_names = [name], row_feedscore = feedscore,
          row_opscore = opscore, row_country = Some '' '', row_match_count = 1\<rparr>)"

definition add_participant :: "participant \<Rightarrow> adding \<Rightarrow> adding" where
  "add_participant p st =
     (if field_key (puuid p) \<in> existingPuuids st then st
      else st\<lparr>players := insert_row (new_player_row p) (players st),
              existingPuuids := insert (field_key (puuid p)) (existingPuuids st),
              newPlayerCount := newPlayerCount st + 1\<rparr>)"

text \<open>
  \<^verbatim>\<open>stmt.run\<close> only queues an insert: \<open>players\<close> is the table as the queued inserts
  will make it. Nothing catches an exception here: it ends the loops.
\<close>

fun add_participants :: "entry list \<Rightarrow> adding \<Rightarrow> js_error option \<times> adding" where
  "add_participants [] st = (None, st)"
| "add_participants (JNull # ps) st = (Some TypeError, st)"
| "add_participants (Obj p # ps) st = add_participants ps (add_participant p st)"

fun add_files :: "directory \<Rightarrow> adding \<Rightarrow> js_error option \<times> adding" where
  "add_files [] st = (None, st)"
| "add_files ((file, Unparseable) # files) st = (Some SyntaxError, st)"
| "add_files ((file, NoParticipants) # files) st = (Some TypeError, st)"
| "add_files ((file, Match gameDurationSeconds ps) # files) st =
     (case add_participants ps st of
        (Some err, st') \<Rightarrow> (Some err, st')
      | (None, st') \<Rightarrow> add_files files st')"

text \<open>
  The run. An exception that nothing catches ends the process before a queued insert is
  run: the table is then as it was.
\<close>

definition addNewPlayersFromMatches :: "refined_table \<Rightarrow> directory \<Rightarrow> js_error option \<times> adding" where
  "addNewPlayersFromMatches tbl dir =
     (case add_files (json_files dir)
             \<lparr>existingPuuids = set (map (\<lambda>r. column_key (row_puuid r)) tbl), players = tbl,
              newPlayerCount = 0\<rparr> of
        (None, st) \<Rightarrow> (None, st)
      | (Some err, st) \<Rightarrow> (Some err, st\<lparr>players := tbl\<rparr>))"

section \<open>The server: /api/save-match and /api/save-player\<close>

text \<open>
  The two handlers of the server (the second part of \<^verbatim>\<open>src/backend/add_new_players.js\<close>).

  The body of a save-match request: \<^verbatim>\<open>match?.metadata?.matchId\<close> (absent: \<open>None\<close>)
  and the text that \<^verbatim>\<open>JSON.stringify(match, null, 2)\<close> gives.
\<close>

record match_body =
  matchId :: "string option"
  stringified :: string

text \<open>The files of the server, by path. Errors of the file system are not modelled.\<close>

type_synonym files = "string \<rightharpoonup> string"

text \<open>
  The handler gives the status of the response and the files after it.
  \<open>path_join\<close> stands for \<^verbatim>\<open>path.join(MATCHES_DIR, name)\<close>.
\<close>

definition save_match :: "(string \<Rightarrow> string) \<Rightarrow> files \<Rightarrow> match_body \<Rightarrow> nat \<times> files" where
  "save_match path_join disk body =
     (if \<not> truthy (matchId body) then (400, disk)
      else
        let matchFilePath = path_join (the (matchId body) @ ''.json'')
        in if disk matchFilePath \<noteq> None then (200, disk)
           else (201, disk(matchFilePath \<mapsto> stringified body)))"

text \<open>
  The body of a save-player request. The two scores are the values of
  \<^verbatim>\<open>parseFloat(player.feedscore)\<close> and \<^verbatim>\<open>parseFloat(player.opscore)\<close>.
\<close>

record player_body =
  body_name :: "string option"
  body_feedscore :: jsnum
  body_opscore :: jsnum
  body_country :: "string option"

type_synonym raw_table = "string player_row list"

text \<open>A score column read into arithmetic: NULL converts to 0.\<close>

definition column_number :: "jsnum \<Rightarrow> jsnum" where
  "column_number v = (case v of NaN \<Rightarrow> Fin 0 | _ \<Rightarrow> v)"

text \<open>\<^verbatim>\<open>row.match_count || 1\<close>\<close>

definition or_one :: "int \<Rightarrow> int" where
  "or_one n = (if n = 0 then 1 else n)"

text \<open>
  The handler gives the status, the message, the player of the response and the table
  after it. Errors of the database (status 500) are not modelled.
\<close>

definition save_player ::
  "raw_table \<Rightarrow> player_body \<Rightarrow> (nat \<times> string \<times> string player_row option) \<times> raw_table" where
  "save_player tbl player =
     (if \<not> truthy (body_name player) then ((400, ''Missing player name'', None), tbl)
      else
        let name = the (body_name player)
        in case find (\<lambda>r. row_names r = name) tbl of
             Some row \<Rightarrow>
               let oldCount = or_one (row_match_count row);
                   newCount = oldCount + 1;
                   newFeedscore =
                     js_div
                       (js_add
                          (js_mul (column_number (row_feedscore row)) (Fin (of_int oldCount)))
                          (body_feedscore player))
                       (Fin (of_int newCount));
                   newOpscore =
                     js_div
                       (js_add
                          (js_mul (column_number (row_opscore row)) (Fin (of_int oldCount)))
                          (body_opscore player))
                       (Fin (of_int newCount))
               in ((200, ''Player updated successfully'',
                    Some \<lparr>row_puuid = None, row_names = name, row_feedscore = newFeedscore,
                          row_opscore = newOpscore, row_country = body_country player,
                          row_match_count = newCount\<rparr>),
                   map (\<lambda>r. if row_names r = name
                             then r\<lparr>row_feedscore := newFeedscore, row_opscore := newOpscore,
                                    row_country := body_country player,
                                    row_match_count := newCount\<rparr>
                             else r) tbl)
           | None \<Rightarrow>
               let inserted =
                     \<lparr>row_puuid = None, row_names = name,
                      row_feedscore = body_feedscore player,
                      row_opscore = body_opscore player,
                      row_country = body_country player, row_match_count = 1\<rparr>
               in ((200, ''Player inserted successfully'', Some inserted),
                   insert_or_replace inserted tbl))"

section \<open>Vocabulary of the properties\<close>

text \<open>
  The participants of a document that the full rebuild aggregates: the objects before
  the first \<^verbatim>\<open>null\<close> entry that have a truthy \<^verbatim>\<open>puuid\<close>.
\<close>

fun objects_before_null :: "entry list \<Rightarrow> participant list" where
  "objects_before_null [] = []"
| "objects_before_null (JNull # ps) = []"
| "objects_before_null (Obj p # ps) = p # objects_before_null ps"

definition counted :: "document \<Rightarrow> participant list" where
  "counted doc =
     (case doc of
        Match d ps \<Rightarrow> filter (\<lambda>p. truthy (puuid p)) (objects_before_null ps)
      | _ \<Rightarrow> [])"

definition sightings :: "directory \<Rightarrow> participant list" where
  "sightings dir = concat (map (\<lambda>f. counted (snd f)) (json_files dir))"

definition sightings_of :: "string \<Rightarrow> directory \<Rightarrow> participant list" where
  "sightings_of k dir = filter (\<lambda>p. puuid p = Some k) (sightings dir)"

text \<open>The value of a \<^verbatim>\<open>puuid\<close> column is the key of an aggregated participant.\<close>

definition sighted :: "directory \<Rightarrow> string option \<Rightarrow> bool" where
  "sighted dir v = (case v of None \<Rightarrow> False | Some k \<Rightarrow> sightings_of k dir \<noteq> [])"

text \<open>
  A valid match document has exactly 10 participant entries, each an object with a
  truthy \<^verbatim>\<open>puuid\<close>. A malformed document is one that is not parsed or lacks
  \<^verbatim>\<open>info\<close> or \<^verbatim>\<open>info.participants\<close>.
\<close>

fun valid_entry :: "entry \<Rightarrow> bool" where
  "valid_entry (Obj p) = truthy (puuid p)"
| "valid_entry JNull = False"

definition valid_match :: "document \<Rightarrow> bool" where
  "valid_match doc =
     (case doc of Match d ps \<Rightarrow> length ps = 10 \<and> list_all valid_entry ps | _ \<Rightarrow> False)"

definition malformed :: "document \<Rightarrow> bool" where
  "malformed doc = (case doc of Match d ps \<Rightarrow> False | _ \<Rightarrow> True)"

text \<open>The number that \<^verbatim>\<open>v || 0\<close> gives, as a real.\<close>

definition num :: "real option \<Rightarrow> real" where
  "num v = (case v of None \<Rightarrow> 0 | Some x \<Rightarrow> x)"

text \<open>
  The invariant of the aggregation loop: the map has one entry for each player key
  among the participants \<open>ps\<close> aggregated so far, and that entry holds the names and the
  number of the sightings of that key.
\<close>

fun tally :: "aggregate option \<Rightarrow> participant list \<Rightarrow> bool" where
  "tally None obs = (obs = [])"
| "tally (Some a) obs =
     (obs \<noteq> [] \<and> set (names a) = display_name ` set obs \<and>
      match_count a = int (length obs) \<and> country a = None)"

definition tallies :: "(string \<times> aggregate) list \<Rightarrow> participant list \<Rightarrow> bool" where
  "tallies pm ps =
     (distinct (map fst pm) \<and>
      sum_list (map (\<lambda>e. match_count (snd e)) pm) = int (length ps) \<and>
      (\<forall>k. tally (map_of pm k) (filter (\<lambda>p. puuid p = Some k) ps)))"








text \<open>
  The invariant of the insertion loop: the table is the initial table followed by new
  rows, and the Set knows the key of every row.
\<close>

definition adds_only :: "refined_table \<Rightarrow> adding \<Rightarrow> bool" where
  "adds_only tbl st =
     (\<exists>new. players st = tbl @ new \<and>
        distinct (map row_puuid new) \<and>
        (\<forall>r \<in> set new. row_match_count r = 1 \<and> row_country r = Some '' '' \<and>
           field_key (row_puuid r) \<in> existingPuuids st \<and>
           (row_puuid r \<noteq> None \<longrightarrow> row_puuid r \<notin> set (map row_puuid tbl))) \<and>
        (\<forall>r \<in> set tbl. column_key (row_puuid r) \<in> existingPuuids st))"

section \<open>Example inputs\<close>

definition example_alice :: "string \<Rightarrow> participant" where
  "example_alice tag =
     \<lparr>puuid = Some ''puuid-alice'', riotIdGameName = Some ''Alice'', riotIdTagline = Some tag,
      kills = Some 5, deaths = Some 2, assists = Some 10, goldEarned = Some 12000,
      visionScore = Some 20\<rparr>"

definition example_other :: "string \<Rightarrow> participant" where
  "example_other n =
     \<lparr>puuid = Some (''puuid-'' @ n), riotIdGameName = Some n, riotIdTagline = Some ''EUW'',
      kills = Some 3, deaths = Some 4, assists = Some 6, goldEarned = Some 9000,
      visionScore = Some 15\<rparr>"

definition example_match :: "string \<Rightarrow> real \<Rightarrow> document" where
  "example_match tag seconds =
     Match (Some seconds)
       (map Obj (example_alice tag #
          map example_other [''b'', ''c'', ''d'', ''e'', ''f'', ''g'', ''h'', ''i'', ''j'']))"

definition example_directory :: directory where
  "example_directory =
     [(''EUW1_1.json'', example_match ''EUW'' 1800),
      (''broken.json'', Unparseable),
      (''notes.txt'', NoParticipants),
      (''EUW1_2.json'', example_match ''NA1'' 1500),
      (''empty.json'', NoParticipants)]"

definition example_solo :: "real \<Rightarrow> directory" where
  "example_solo seconds = [(''EUW1_1.json'', Match (Some seconds) [Obj (example_alice ''EUW'')])]"

definition example_renamed :: directory where
  "example_renamed =
     [(''EUW1_1.json'', Match (Some 1800) [Obj (example_alice ''EUW'')]),
      (''EUW1_2.json'', Match (Some 1500) [Obj (example_alice ''NA1'')])]"

definition example_broken :: directory where
  "example_broken =
     [(''broken.json'', Unparseable),
      (''EUW1_1.json'', Match (Some 1800) [Obj (example_alice ''EUW''), Obj (example_other ''b'')])]"

definition example_rematch :: directory where
  "example_rematch =
     [(''EUW1_1.json'', Match (Some 1800) [Obj (example_alice ''EUW''), Obj (example_other ''b'')]),
      (''EUW1_2.json'', Match (Some 1500) [Obj (example_other ''b''), Obj (example_alice ''NA1'')])]"

definition example_stored_alice :: "string list player_row" where
  "example_stored_alice =
     \<lparr>row_puuid = Some ''puuid-alice'', row_names = [''Alice#EUW''], row_feedscore = Fin 1,
      row_opscore = Fin 5, row_country = Some ''Hungary'', row_match_count = 3\<rparr>"

definition example_stored_bob :: "string list player_row" where
  "example_stored_bob =
     \<lparr>row_puuid = Some ''puuid-bob'', row_names = [''Bob#EUW''], row_feedscore = Fin 2,
      row_opscore = Fin 6, row_country = Some ''Romania'', row_match_count = 4\<rparr>"

definition example_upsert :: "string \<Rightarrow> player_body" where
  "example_upsert tag =
     \<lparr>body_name = Some (''Alice#'' @ tag), body_feedscore = Fin (- 5.5),
      body_opscore = Fin 38.65, body_country = Some ''Unknown''\<rparr>"

definition example_second_upsert :: player_body where
  "example_second_upsert =
     \<lparr>body_name = Some ''Alice#EUW'', body_feedscore = Fin (- 5.5), body_opscore = Fin 38.5,
      body_country = Some ''Unknown''\<rparr>"

definition example_raw_row :: "int \<Rightarrow> string player_row" where
  "example_raw_row n =
     \<lparr>row_puuid = None, row_names = ''Alice#EUW'', row_feedscore = Fin 3, row_opscore = Fin 30,
      row_country = None, row_match_count = n\<rparr>"

definition example_match_body :: match_body where
  "example_match_body = \<lparr>matchId = Some ''EUW1_1'', stringified = ''{}''\<rparr>"

definition example_path_join :: "string \<Rightarrow> string" where
  "example_path_join name = ''data/'' @ name"

lemmas value_defs = truthy_def or_unknown_def or_zero_def to_number_def to_string_def
  json_files_def endsWith_def js_sub_def js_ge_def js_gt_def signed_inf_def Let_def

lemmas rebuild_defs = normalizePlayersByPuuid_def aggregate_files_def for_participant_def
  display_name_def feedscore_of_def rawOpScore_of_def set_add_def aggregate_row_def
  reset_scores_def insert_or_replace_def normalizeOpScore_def thresholds_def interpolate_def

lemmas sighting_defs = sightings_of_def sightings_def counted_def sighted_def

lemmas adding_defs = addNewPlayersFromMatches_def add_participant_def new_player_row_def
  insert_row_def column_key_def field_key_def

lemmas server_defs = save_player_def save_match_def or_one_def column_number_def


lemmas rnd_eval = rnd_def expo.simps round_even_def Let_def

lemmas double_defs = normalizeOpScore_double_def interpolate_double_def literal_def
  dbl_add_def dbl_sub_def dbl_mul_def dbl_div_def js_sub_def js_ge_def js_gt_def thresholds_def

lemmas example_defs = example_alice_def example_other_def example_match_def
  example_directory_def example_solo_def example_renamed_def example_broken_def
  example_rematch_def example_stored_alice_def example_stored_bob_def example_upsert_def
  example_raw_row_def example_match_body_def example_path_join_def

section \<open>Properties of the score normalisation\<close>


text \<open>\<open>round2\<close> gives a multiple of 0.01 that is nearest to its argument.\<close>

lemma round2_nearest: "\<bar>round2 g - g\<bar> \<le> 1 / 200 \<and> (\<exists>k::int. round2 g = of_int k / 100)"
proof -
  have "\<bar>of_int \<lfloor>g * 100 + 1 / 2\<rfloor> - g * 100\<bar> \<le> (1::real) / 2"
    by linarith
  then have "\<bar>round2 g - g\<bar> \<le> 1 / 200"
    by (simp add: round2_def field_simps)
  then show ?thesis
    unfolding round2_def by blast
qed

section \<open>Rounding to a double\<close>

lemma expo_bounds: "0 < y \<Longrightarrow> 2 powi (expo y) \<le> y \<and> y < 2 powi (expo y + 1)"
proof (induction y rule: expo.induct)
  case (1 y)
  show ?case
  proof (cases "2 \<le> y")
    case True
    then have e: "expo y = expo (y / 2) + 1"
      by (subst expo.simps) simp
    from "1.IH"(1) [OF True] "1.prems"
    have "2 powi (expo (y / 2)) \<le> y / 2 \<and> y / 2 < 2 powi (expo (y / 2) + 1)"
      by simp
    moreover have "(2::real) powi (expo (y / 2) + 1) = 2 powi (expo (y / 2)) * 2"
      by (simp add: power_int_add)
    moreover have "(2::real) powi (expo (y / 2) + 1 + 1) = 2 powi (expo (y / 2)) * 2 * 2"
      by (simp add: power_int_add)
    ultimately show ?thesis
      unfolding e by simp
  next
    case False
    show ?thesis
    proof (cases "y < 1")
      case True
      with False "1.prems" have e: "expo y = expo (2 * y) - 1"
        by (subst expo.simps) simp
      from "1.IH"(2) [OF False] True "1.prems"
      have "2 powi (expo (2 * y)) \<le> 2 * y \<and> 2 * y < 2 powi (expo (2 * y) + 1)"
        by simp
      moreover have "(2::real) powi (expo (2 * y) - 1) = 2 powi (expo (2 * y)) / 2"
        by (simp add: power_int_diff)
      moreover have "(2::real) powi (expo (2 * y) + 1) = 2 powi (expo (2 * y)) * 2"
        by (simp add: power_int_add)
      ultimately show ?thesis
        unfolding e by simp
    next
      case ge: False
      with False have e: "expo y = 0"
        by (subst expo.simps) simp
      from False ge show ?thesis
        unfolding e by simp
    qed
  qed
qed

lemma round_even_error: "\<bar>of_int (round_even z) - z\<bar> \<le> 1 / 2"
  unfolding round_even_def Let_def by (auto; linarith)

lemma rnd_error: "\<bar>rnd y - y\<bar> \<le> \<bar>y\<bar> / 2 ^ 53"
proof (cases "y = 0")
  case True
  then show ?thesis by (simp add: rnd_def)
next
  case False
  define e where "e = expo \<bar>y\<bar>"
  define ulp :: real where "ulp = 2 powi (e - 52)"
  have pos: "0 < ulp" by (simp add: ulp_def)
  from False have "2 powi e \<le> \<bar>y\<bar>"
    unfolding e_def using expo_bounds [of "\<bar>y\<bar>"] by simp
  then have ulp_le: "ulp \<le> \<bar>y\<bar> / 2 ^ 52"
    by (simp add: ulp_def power_int_diff field_simps)
  have r: "rnd y = of_int (round_even (y / ulp)) * ulp"
    using False by (simp add: rnd_def Let_def ulp_def e_def)
  have "rnd y - y = (of_int (round_even (y / ulp)) - y / ulp) * ulp"
    unfolding r using pos by (simp add: field_simps)
  then have "\<bar>rnd y - y\<bar> = \<bar>of_int (round_even (y / ulp)) - y / ulp\<bar> * ulp"
    using pos by (simp add: abs_mult)
  also have "\<dots> \<le> 1 / 2 * ulp"
    using round_even_error [of "y / ulp"] pos by (intro mult_right_mono) simp_all
  also have "\<dots> \<le> 1 / 2 * (\<bar>y\<bar> / 2 ^ 52)"
    using ulp_le by simp
  also have "\<dots> = \<bar>y\<bar> / 2 ^ 53"
    by simp
  finally show ?thesis .
qed

section \<open>The error of the interpolation in doubles\<close>

text \<open>
  The six rounded operations of the interpolation, each within the relative error \<open>e\<close> of
  its exact result, on anchors within \<open>d\<close> of their decimal values, give 100 times the
  grade within \<open>1 / 10 ^ 10\<close> of 100 times the exact interpolation.
\<close>

lemma rel_error_bound:
  fixes a b e c m :: real
  assumes "\<bar>a - b\<bar> \<le> e * \<bar>b\<bar>" and "0 \<le> e" and "e \<le> c" and "\<bar>b\<bar> \<le> m"
  shows "\<bar>a - b\<bar> \<le> c * m"
proof -
  have "e * \<bar>b\<bar> \<le> c * m"
    using assms by (intro mult_mono) simp_all
  with assms(1) show ?thesis by linarith
qed

lemma interpolation_error:
  fixes l u L U x gl R O' q pr g h e d :: real
  assumes eps: "0 \<le> e" "e \<le> 2 / 10 ^ 16" and del: "0 \<le> d" "d \<le> 2 / 10 ^ 13"
    and L: "\<bar>L - l\<bar> \<le> d" and U: "\<bar>U - u\<bar> \<le> d"
    and width: "60 \<le> u - l" "u - l \<le> 378"
    and x: "L < x" "x < U"
    and gl: "0 \<le> gl" "gl \<le> 9"
    and R: "\<bar>R - (U - L)\<bar> \<le> e * \<bar>U - L\<bar>"
    and O': "\<bar>O' - (x - L)\<bar> \<le> e * \<bar>x - L\<bar>"
    and q: "\<bar>q - O' / R\<bar> \<le> e * \<bar>O' / R\<bar>"
    and pr: "\<bar>pr - q\<bar> \<le> e * \<bar>q\<bar>"
    and g: "\<bar>g - (gl + pr)\<bar> \<le> e * \<bar>gl + pr\<bar>"
    and h: "\<bar>h - g * 100\<bar> \<le> e * \<bar>g * 100\<bar>"
  shows "\<bar>h - 100 * (gl + (x - l) / (u - l))\<bar> \<le> 1 / 10 ^ 10"
    and "- (1 / 10 ^ 9) \<le> h" and "h \<le> 100 * (gl + 1) + 1 / 10 ^ 9"
proof -
  define D where "D = u - l"
  define t where "t = (x - l) / D"
  have D: "60 \<le> D" "D \<le> 378" using width by (simp_all add: D_def)
  have UL: "0 < U - L" "U - L \<le> 379" "\<bar>U - L - D\<bar> \<le> 2 * d"
    using x L U D del unfolding D_def unfolding abs_le_iff by simp_all
  have "\<bar>R - (U - L)\<bar> \<le> 2 / 10 ^ 16 * 379"
    by (rule rel_error_bound [OF R eps]) (use UL in simp)
  with UL del have Rd: "\<bar>R - D\<bar> \<le> 5 / 10 ^ 13"
    unfolding abs_le_iff by simp
  with D have Rb: "59 \<le> R" "R \<le> 379" unfolding abs_le_iff by simp_all
  have xL: "0 < x - L" "x - L \<le> 379" using x UL by simp_all
  have "\<bar>O' - (x - L)\<bar> \<le> 2 / 10 ^ 16 * 379"
    by (rule rel_error_bound [OF O' eps]) (use xL in simp)
  with L del have Od: "\<bar>O' - (x - l)\<bar> \<le> 3 / 10 ^ 13"
    unfolding abs_le_iff by simp
  have xl: "- (2 / 10 ^ 13) \<le> x - l" "x - l \<le> D + 2 / 10 ^ 13"
    using x L U del unfolding D_def unfolding abs_le_iff by simp_all
  then have xlabs: "\<bar>x - l\<bar> \<le> 379" using D unfolding abs_le_iff by simp
  have tb: "- (1 / 10 ^ 13) \<le> t" "t \<le> 1 + 1 / 10 ^ 13"
  proof -
    have "- (1 / 10 ^ 13) * D \<le> x - l"
    proof -
      have "- (1 / 10 ^ 13) * D \<le> - (1 / 10 ^ 13) * 60" using D by simp
      with xl show ?thesis by simp
    qed
    then show "- (1 / 10 ^ 13) \<le> t"
      unfolding t_def using D by (simp add: pos_le_divide_eq)
    have "x - l \<le> (1 + 1 / 10 ^ 13) * D"
    proof -
      have "D + 1 / 10 ^ 13 * 60 \<le> D + 1 / 10 ^ 13 * D" using D by simp
      with xl show ?thesis by (simp add: algebra_simps)
    qed
    then show "t \<le> 1 + 1 / 10 ^ 13"
      unfolding t_def using D by (simp add: pos_divide_le_eq)
  qed
  define w where "w = O' / R"
  have quot: "\<bar>w - t\<bar> \<le> 1 / 10 ^ 13"
  proof -
    have RD: "3540 \<le> R * D"
    proof -
      have "59 * 60 \<le> R * D" using Rb D by (intro mult_mono) simp_all
      then show ?thesis by simp
    qed
    have eq: "w - t = ((O' - (x - l)) * D + (x - l) * (D - R)) / (R * D)"
      unfolding t_def w_def using Rb D by (simp add: field_simps)
    have "\<bar>(O' - (x - l)) * D\<bar> \<le> 3 / 10 ^ 13 * 378"
      unfolding abs_mult using Od D by (intro mult_mono) simp_all
    moreover have "\<bar>(x - l) * (D - R)\<bar> \<le> 379 * (5 / 10 ^ 13)"
      unfolding abs_mult using xlabs Rd by (intro mult_mono) (simp_all add: abs_minus_commute)
    ultimately have num: "\<bar>(O' - (x - l)) * D + (x - l) * (D - R)\<bar> \<le> 3540 / 10 ^ 13"
      unfolding abs_le_iff by simp
    have "\<bar>w - t\<bar> = \<bar>(O' - (x - l)) * D + (x - l) * (D - R)\<bar> / (R * D)"
      unfolding eq using Rb D by (simp add: abs_mult)
    also have "\<dots> \<le> (3540 / 10 ^ 13) / 3540"
      using num RD by (intro frac_le) simp_all
    finally show ?thesis by simp
  qed
  with tb have ORb: "\<bar>w\<bar> \<le> 2" unfolding abs_le_iff by simp
  have qe: "\<bar>q - w\<bar> \<le> 2 / 10 ^ 16 * 2"
    by (rule rel_error_bound [OF q [folded w_def] eps]) (use ORb in simp)
  with ORb have qb: "\<bar>q\<bar> \<le> 3" unfolding abs_le_iff by simp
  have pe: "\<bar>pr - q\<bar> \<le> 2 / 10 ^ 16 * 3"
    by (rule rel_error_bound [OF pr eps]) (use qb in simp)
  from quot qe pe have prt: "\<bar>pr - t\<bar> \<le> 2 / 10 ^ 13"
    unfolding abs_le_iff by simp
  with tb gl have sb: "\<bar>gl + pr\<bar> \<le> 11" unfolding abs_le_iff by simp
  have ge: "\<bar>g - (gl + pr)\<bar> \<le> 2 / 10 ^ 16 * 11"
    by (rule rel_error_bound [OF g eps]) (use sb in simp)
  with prt have gG: "\<bar>g - (gl + t)\<bar> \<le> 3 / 10 ^ 13"
    unfolding abs_le_iff by simp
  from ge sb have gb: "\<bar>g * 100\<bar> \<le> 1200" unfolding abs_le_iff by simp
  have he: "\<bar>h - g * 100\<bar> \<le> 2 / 10 ^ 16 * 1200"
    by (rule rel_error_bound [OF h eps]) (use gb in simp)
  with gG have hG: "\<bar>h - 100 * (gl + t)\<bar> \<le> 1 / 10 ^ 10"
    unfolding abs_le_iff by simp
  then show "\<bar>h - 100 * (gl + (x - l) / (u - l))\<bar> \<le> 1 / 10 ^ 10"
    by (simp add: t_def D_def)
  from hG tb gl show "- (1 / 10 ^ 9) \<le> h" "h \<le> 100 * (gl + 1) + 1 / 10 ^ 9"
    unfolding abs_le_iff by simp_all
qed

lemma interpolate_double_close:
  assumes x: "rnd (score lower) < x" "x < rnd (score upper)"
    and width: "60 \<le> score upper - score lower" "score upper - score lower \<le> 378"
    and scores: "0 \<le> score lower" "score lower \<le> 1253" "0 \<le> score upper" "score upper \<le> 1253"
    and grades: "rnd (grade lower) = grade lower" "rnd (grade lower + 1) = grade lower + 1"
      "grade upper = grade lower + 1" "0 \<le> grade lower" "grade lower \<le> 9"
  shows "\<exists>k::int. 0 \<le> k \<and> k \<le> 1000 \<and>
           interpolate_double upper lower (Fin x) = Fin (rnd (of_int k / 100)) \<and>
           \<bar>of_int k / 100 - linear_interpolation upper lower x\<bar> \<le> 1 / 200 + 1 / 10 ^ 12"
proof -
  define L where "L = rnd (score lower)"
  define U where "U = rnd (score upper)"
  define R where "R = rnd (U - L)"
  define O' where "O' = rnd (x - L)"
  define q where "q = rnd (O' / R)"
  define pr where "pr = rnd q"
  define g where "g = rnd (grade lower + pr)"
  define h where "h = rnd (g * 100)"
  define k where "k = \<lfloor>h + 1 / 2\<rfloor>"
  define e :: real where "e = 1 / 2 ^ 53"
  define d :: real where "d = 1253 / 2 ^ 53"
  have e: "0 \<le> e" "e \<le> 2 / 10 ^ 16" by (simp_all add: e_def)
  have d: "0 \<le> d" "d \<le> 2 / 10 ^ 13" by (simp_all add: d_def)
  have err: "\<bar>rnd y - y\<bar> \<le> e * \<bar>y\<bar>" for y
    using rnd_error [of y] by (simp add: e_def)
  have Le: "\<bar>L - score lower\<bar> \<le> d"
    using rnd_error [of "score lower"] scores unfolding L_def d_def by simp
  have Ue: "\<bar>U - score upper\<bar> \<le> d"
    using rnd_error [of "score upper"] scores unfolding U_def d_def by simp
  have xs: "L < x" "x < U" using x by (simp_all add: L_def U_def)
  have one: "rnd 1 = 1" and hundred: "rnd 100 = 100"
    by (simp_all add: rnd_eval)
  note ie = interpolation_error [OF e d Le Ue width xs grades(4,5),
      of R O' q pr g h, OF err [of "U - L", folded R_def] err [of "x - L", folded O'_def]
        err [of "O' / R", folded q_def] err [of q, folded pr_def]
        err [of "grade lower + pr", folded g_def] err [of "g * 100", folded h_def]]
  have Rpos: "R \<noteq> 0"
  proof -
    have p: "0 < U - L" using xs by simp
    then have "\<bar>R - (U - L)\<bar> \<le> e * (U - L)"
      using err [of "U - L"] by (simp add: R_def)
    moreover have "e * (U - L) \<le> 1 / 2 * (U - L)"
      using e p by (intro mult_right_mono) simp_all
    ultimately have "\<bar>R - (U - L)\<bar> \<le> 1 / 2 * (U - L)"
      by (rule order_trans)
    with p show ?thesis
      unfolding abs_le_iff by auto
  qed
  have res: "interpolate_double upper lower (Fin x) = Fin (rnd (of_int k / 100))"
    using Rpos
    by (simp add: interpolate_double_def literal_def dbl_add_def dbl_sub_def dbl_mul_def
        dbl_div_def js_sub_def Let_def grades one hundred
        k_def h_def g_def pr_def q_def O'_def R_def U_def L_def)
  have kh: "\<bar>of_int k - h\<bar> \<le> 1 / 2"
    unfolding k_def by linarith
  have k0: "0 \<le> k"
  proof -
    have "0 \<le> h + 1 / 2" using ie(2) by simp
    then show ?thesis unfolding k_def by simp
  qed
  have k1: "k \<le> 1000"
  proof -
    have "h + 1 / 2 < 1001" using ie(3) grades(5) by simp
    then have "k < 1001" unfolding k_def by (simp add: floor_less_iff)
    then show ?thesis by simp
  qed
  have lin: "linear_interpolation upper lower x =
      grade lower + (x - score lower) / (score upper - score lower)"
    by (simp add: linear_interpolation_def grades(3))
  have "\<bar>of_int k - 100 * linear_interpolation upper lower x\<bar> \<le> 1 / 2 + 1 / 10 ^ 10"
    using kh ie(1) unfolding lin abs_le_iff by simp
  then have "\<bar>of_int k / 100 - linear_interpolation upper lower x\<bar> \<le> 1 / 200 + 1 / 10 ^ 12"
    unfolding abs_le_iff by simp
  with res k0 k1 show ?thesis by blast
qed

section \<open>The values of normalizeOpScore\<close>

lemma double_above: "rnd 1252.11 \<le> x \<Longrightarrow> normalizeOpScore_double (Fin x) = Fin 10"
  by (simp add: normalizeOpScore_double_def literal_def js_ge_def rnd_eval)

lemma double_below: "x \<le> rnd 146.92 \<Longrightarrow> normalizeOpScore_double (Fin x) = Fin 0"
  by (simp add: normalizeOpScore_double_def literal_def js_ge_def rnd_eval)

lemma double_anchor:
  "\<forall>t \<in> set thresholds. normalizeOpScore_double (literal (score t)) = Fin (grade t)"
  by (simp add: double_defs rnd_eval)

lemma double_named:
  "normalizeOpScore_double (literal 2000) = Fin 10"
  "normalizeOpScore_double (literal 0) = Fin 0"
  "normalizeOpScore_double (literal 468.92) = Fin 4.5"
  by (simp_all add: double_defs rnd_eval)

lemma double_bracket:
  "\<forall>(u, l) \<in> set adjacent_anchors. rnd (score l) < x \<and> x < rnd (score u) \<longrightarrow>
     normalizeOpScore_double (Fin x) = interpolate_double u l (Fin x)"
  by (simp add: adjacent_anchors_def normalizeOpScore_double_def literal_def js_ge_def js_gt_def
      thresholds_def rnd_eval)

lemma double_between:
  "\<forall>(u, l) \<in> set adjacent_anchors. rnd (score l) < x \<and> x < rnd (score u) \<longrightarrow>
     (\<exists>k::int. 0 \<le> k \<and> k \<le> 1000 \<and>
        interpolate_double u l (Fin x) = Fin (rnd (of_int k / 100)) \<and>
        \<bar>of_int k / 100 - linear_interpolation u l x\<bar> \<le> 1 / 200 + 1 / 10 ^ 12)"
proof -
  have "\<forall>(u, l) \<in> set adjacent_anchors.
      60 \<le> score u - score l \<and> score u - score l \<le> 378 \<and>
      0 \<le> score l \<and> score l \<le> 1253 \<and> 0 \<le> score u \<and> score u \<le> 1253 \<and>
      rnd (grade l) = grade l \<and> rnd (grade l + 1) = grade l + 1 \<and>
      grade u = grade l + 1 \<and> 0 \<le> grade l \<and> grade l \<le> 9"
    by (simp add: adjacent_anchors_def thresholds_def rnd_eval)
  then show ?thesis
    using interpolate_double_close [of _ x] by (auto simp: split_def) 
qed

text \<open>
  Claim C1, amended. In the arithmetic of doubles, \<open>normalizeOpScore\<close> gives 10 on every
  input that is at least the double 1252.11 and 0 on every input that is at most the
  double 146.92; at each of the 11 anchor scores it gives the paired grade exactly (so 4
  at 424.93, 10 at 1252.11 and at 2000, 0 at 146.92 and at 0); and for an input strictly
  between two adjacent anchors it gives the double nearest to \<open>k / 100\<close> for an integer
  \<open>k\<close> from 0 to 1000, where \<open>k / 100\<close> differs from the exact linear interpolation of the
  two anchor grades by at most \<open>1 / 200 + 1 / 10 ^ 12\<close>: a grade of two decimals that is
  nearest to the interpolation up to the rounding error of the arithmetic, and not
  always the rounding of the exact interpolation. At 468.92 the result is 4.5, strictly
  between 4 and 5.
\<close>

theorem normalizeOpScore_double_grades:
  "(rnd 1252.11 \<le> x \<longrightarrow> normalizeOpScore_double (Fin x) = Fin 10) \<and>
   (x \<le> rnd 146.92 \<longrightarrow> normalizeOpScore_double (Fin x) = Fin 0) \<and>
   length thresholds = 11 \<and>
   (\<forall>t \<in> set thresholds. normalizeOpScore_double (literal (score t)) = Fin (grade t)) \<and>
   normalizeOpScore_double (literal 424.93) = Fin 4 \<and>
   normalizeOpScore_double (literal 1252.11) = Fin 10 \<and>
   normalizeOpScore_double (literal 146.92) = Fin 0 \<and>
   normalizeOpScore_double (literal 2000) = Fin 10 \<and>
   normalizeOpScore_double (literal 0) = Fin 0 \<and>
   (\<forall>(u, l) \<in> set adjacent_anchors. rnd (score l) < x \<and> x < rnd (score u) \<longrightarrow>
      (\<exists>k::int. 0 \<le> k \<and> k \<le> 1000 \<and>
         normalizeOpScore_double (Fin x) = Fin (rnd (of_int k / 100)) \<and>
         \<bar>of_int k / 100 - linear_interpolation u l x\<bar> \<le> 1 / 200 + 1 / 10 ^ 12)) \<and>
   normalizeOpScore_double (literal 468.92) = Fin 4.5"
proof -
  have anchors: "\<forall>t \<in> set thresholds. normalizeOpScore_double (literal (score t)) = Fin (grade t)"
    by (rule double_anchor)
  have "normalizeOpScore_double (literal 424.93) = Fin 4"
    "normalizeOpScore_double (literal 1252.11) = Fin 10"
    "normalizeOpScore_double (literal 146.92) = Fin 0"
    using anchors by (simp_all add: thresholds_def)
  moreover have "length thresholds = 11"
    by (simp add: thresholds_def)
  moreover have "\<forall>(u, l) \<in> set adjacent_anchors. rnd (score l) < x \<and> x < rnd (score u) \<longrightarrow>
      (\<exists>k::int. 0 \<le> k \<and> k \<le> 1000 \<and>
         normalizeOpScore_double (Fin x) = Fin (rnd (of_int k / 100)) \<and>
         \<bar>of_int k / 100 - linear_interpolation u l x\<bar> \<le> 1 / 200 + 1 / 10 ^ 12)"
    using double_bracket [of x] double_between [of x] by fastforce
  ultimately show ?thesis
    using anchors double_above [of x] double_below [of x] double_named by blast
qed

theorem normalizeOpScore_double_grades_witness:
  "rnd 424.93 < rnd 468.92 \<and> rnd 468.92 < rnd 512.91 \<and>
   normalizeOpScore_double (Fin (rnd 468.92)) = Fin (rnd (of_int 450 / 100)) \<and>
   \<bar>of_int 450 / 100 - linear_interpolation \<lparr>score = 512.91, grade = 5\<rparr>
       \<lparr>score = 424.93, grade = 4\<rparr> (rnd 468.92)\<bar> \<le> 1 / 200 + 1 / 10 ^ 12 \<and>
   normalizeOpScore_double (literal 874.65) = Fin 9"
  using normalizeOpScore_double_grades [of "rnd 468.92"]
  by (simp add: double_defs rnd_eval linear_interpolation_def)

text \<open>
  The claim as stated fails. At 221.5 the exact interpolation is 1.025, which rounds to
  1.03 by the rule of \<^verbatim>\<open>Math.round\<close>; the function returns the double 1.02, because
  the rounded product is just below 102.5. At the double 225.1 the function returns the
  double 1.09, which is farther than 0.005 from the exact interpolation at that input,
  so it is not the hundredth nearest to it by any rule for ties.
\<close>

theorem normalizeOpScore_double_not_rounded_interpolation:
  "normalizeOpScore_double (Fin 221.5) = Fin (rnd 1.02) \<and>
   rnd 221.5 = 221.5 \<and>
   linear_interpolation \<lparr>score = 280, grade = 2\<rparr> \<lparr>score = 220, grade = 1\<rparr> 221.5 = 1.025 \<and>
   round2 1.025 = 1.03 \<and>
   rnd 1.02 < 1.025 \<and>
   normalizeOpScore_double (literal 225.1) = Fin (rnd 1.09) \<and>
   1 / 200 < rnd 1.09 -
     linear_interpolation \<lparr>score = 280, grade = 2\<rparr> \<lparr>score = 220, grade = 1\<rparr> (rnd 225.1)"
  by (simp add: double_defs rnd_eval linear_interpolation_def round2_def)

section \<open>The aggregation loop keeps its tallies\<close>

lemma update_absent: "map_of al k = None \<Longrightarrow> AList.update k v al = al @ [(k, v)]"
  by (induction al) (auto split: if_splits)

lemma sum_update_present:
  "map_of al k = Some old \<Longrightarrow>
   sum_list (map (\<lambda>e. f (snd e)) (AList.update k v al)) =
   sum_list (map (\<lambda>e. f (snd e)) al) - f old + (f v :: int)"
  by (induction al) (auto split: if_splits)

lemma set_set_add: "set (set_add xs x) = insert x (set xs)"
  by (auto simp: set_add_def)

lemma truthy_Some: "truthy v \<Longrightarrow> \<exists>s. v = Some s \<and> s \<noteq> []"
  by (cases v) (auto simp: truthy_def)

lemma tallies_for_participant:
  assumes "tallies (playersMap st) ps" and "truthy (puuid p)"
  shows "tallies (playersMap (for_participant file g p st)) (ps @ [p])"
proof -
  from assms(2) obtain k where k: "puuid p = Some k" "k \<noteq> []"
    using truthy_Some by blast
  let ?pm = "playersMap st"
  let ?pm' = "playersMap (for_participant file g p st)"
  from assms(1) have dist: "distinct (map fst ?pm)"
    and total: "sum_list (map (\<lambda>e. match_count (snd e)) ?pm) = int (length ps)"
    and each: "\<And>j. tally (map_of ?pm j) (filter (\<lambda>p. puuid p = Some j) ps)"
    by (simp_all add: tallies_def)
  obtain v where pm': "?pm' = AList.update k v ?pm"
    and v: "tally (Some v) (filter (\<lambda>p. puuid p = Some k) (ps @ [p]))"
    and sum: "sum_list (map (\<lambda>e. match_count (snd e)) ?pm') = int (length ps) + 1"
  proof (cases "map_of ?pm k")
    case None
    with each [of k] total assms(2) k that show ?thesis
      by (simp add: for_participant_def Let_def update_absent)
  next
    case (Some a)
    with each [of k] total assms(2) k that show ?thesis
      by (simp add: for_participant_def Let_def sum_update_present set_set_add)
  qed
  have "tally (map_of ?pm' j) (filter (\<lambda>p. puuid p = Some j) (ps @ [p]))" for j
  proof (cases "j = k")
    case True
    with v show ?thesis by (simp add: pm' AList.update_conv')
  next
    case False
    with each [of j] k show ?thesis by (simp add: pm' AList.update_conv')
  qed
  with dist sum show ?thesis
    by (simp add: tallies_def pm' AList.distinct_update)
qed

lemma for_participant_falsy:
  "\<not> truthy (puuid p) \<Longrightarrow>
   for_participant file g p st = st\<lparr>console := console st @ [Skipping_participant file]\<rparr>"
  by (simp add: for_participant_def)

lemma tallies_for_participants:
  "tallies (playersMap st) ps \<Longrightarrow>
   tallies (playersMap (snd (for_participants file g es st)))
     (ps @ filter (\<lambda>p. truthy (puuid p)) (objects_before_null es))"
proof (induction es arbitrary: st ps)
  case Nil
  then show ?case by simp
next
  case (Cons e es)
  show ?case
  proof (cases e)
    case JNull
    with Cons.prems show ?thesis by simp
  next
    case (Obj p)
    show ?thesis
    proof (cases "truthy (puuid p)")
      case True
      from tallies_for_participant [OF Cons.prems True]
      have "tallies (playersMap (for_participant file g p st)) (ps @ [p])" .
      from Cons.IH [OF this] True Obj show ?thesis by simp
    next
      case False
      with Cons.prems have "tallies (playersMap (for_participant file g p st)) ps"
        by (simp add: for_participant_falsy)
      from Cons.IH [OF this] False Obj show ?thesis by simp
    qed
  qed
qed

lemma playersMap_for_file:
  "playersMap (for_file (file, Match d es) st) =
   playersMap (snd (for_participants file (js_div (to_number d) (Fin 60)) es
     (st\<lparr>totalMatches := totalMatches st + 1\<rparr>)))"
  by (simp add: Let_def split: prod.splits option.splits)

lemma tallies_for_file:
  assumes "tallies (playersMap st) ps"
  shows "tallies (playersMap (for_file f st)) (ps @ counted (snd f))"
proof (cases f)
  case (Pair name doc)
  show ?thesis
  proof (cases doc)
    case (Match d es)
    from assms have "tallies (playersMap (st\<lparr>totalMatches := totalMatches st + 1\<rparr>)) ps"
      by simp
    from tallies_for_participants [OF this] show ?thesis
      unfolding Pair Match playersMap_for_file by (simp add: counted_def)
  qed (use assms Pair in \<open>simp_all add: counted_def\<close>)
qed

lemma tallies_fold:
  "tallies (playersMap st) ps \<Longrightarrow>
   tallies (playersMap (fold for_file fs st)) (ps @ concat (map (\<lambda>f. counted (snd f)) fs))"
proof (induction fs arbitrary: st ps)
  case Nil
  then show ?case by simp
next
  case (Cons f fs)
  from Cons.IH [OF tallies_for_file [OF Cons.prems]] show ?case by simp
qed

lemma tallies_aggregate_files: "tallies (playersMap (aggregate_files dir)) (sightings dir)"
proof -
  have "tallies (playersMap \<lparr>playersMap = [], totalMatches = 0, totalPlayers = 0, console = []\<rparr>) []"
    by (simp add: tallies_def)
  from tallies_fold [OF this] show ?thesis
    by (simp add: aggregate_files_def sightings_def)
qed

text \<open>The counters of the run.\<close>

lemma totalMatches_for_participant:
  "totalMatches (for_participant file g p st) = totalMatches st"
  by (simp add: for_participant_def Let_def split: option.splits)

lemma totalMatches_for_participants:
  "totalMatches (snd (for_participants file g es st)) = totalMatches st"
proof (induction es arbitrary: st)
  case Nil
  then show ?case by simp
next
  case (Cons e es)
  then show ?case by (cases e) (simp_all add: totalMatches_for_participant)
qed

lemma for_file_Match:
  "for_file (name, Match d es) st =
     (let r = for_participants name (js_div (to_number d) (Fin 60)) es
                (st\<lparr>totalMatches := totalMatches st + 1\<rparr>)
      in case fst r of
           None \<Rightarrow> snd r
         | Some err \<Rightarrow> (snd r)\<lparr>console := console (snd r) @ [Error_processing_file name err]\<rparr>)"
  by (simp add: Let_def split: prod.splits option.splits)

lemma totalMatches_for_file:
  "totalMatches (for_file f st) = totalMatches st + (if malformed (snd f) then 0 else 1)"
proof (cases f)
  case (Pair name doc)
  show ?thesis
  proof (cases doc)
    case (Match d es)
    show ?thesis
      unfolding Pair Match for_file_Match
      by (simp add: malformed_def Let_def totalMatches_for_participants split: option.splits)
  qed (simp_all add: Pair malformed_def)
qed

lemma totalMatches_fold:
  "totalMatches (fold for_file fs st) =
   totalMatches st + length (filter (\<lambda>f. \<not> malformed (snd f)) fs)"
  by (induction fs arbitrary: st) (simp_all add: totalMatches_for_file)

lemma totalMatches_aggregate_files:
  "totalMatches (aggregate_files dir) = length (filter (\<lambda>f. \<not> malformed (snd f)) (json_files dir))"
  by (simp add: aggregate_files_def totalMatches_fold)

section \<open>The table after a full rebuild\<close>

lemma fold_insert_or_replace:
  "distinct (map row_puuid R) \<Longrightarrow> None \<notin> set (map row_puuid R) \<Longrightarrow>
   fold insert_or_replace R T = filter (\<lambda>x. row_puuid x \<notin> set (map row_puuid R)) T @ R"
proof (induction R arbitrary: T)
  case Nil
  then show ?case by simp
next
  case (Cons r R)
  from Cons.prems obtain k where k: "row_puuid r = Some k"
    by (cases "row_puuid r") auto
  have "fold insert_or_replace (r # R) T = fold insert_or_replace R (filter (\<lambda>x. row_puuid x \<noteq> Some k) T @ [r])"
    by (simp add: insert_or_replace_def k)
  also have "\<dots> = filter (\<lambda>x. row_puuid x \<notin> set (map row_puuid R)) (filter (\<lambda>x. row_puuid x \<noteq> Some k) T @ [r]) @ R"
    using Cons.prems by (intro Cons.IH) auto
  also have "\<dots> = filter (\<lambda>x. row_puuid x \<notin> set (map row_puuid (r # R))) T @ r # R"
    using Cons.prems by (auto simp: k intro: filter_cong)
  finally show ?case .
qed

lemma row_puuid_aggregate_row: "row_puuid (aggregate_row e) = Some (fst e)"
  by (simp add: aggregate_row_def Let_def)

lemma row_match_count_aggregate_row: "row_match_count (aggregate_row e) = match_count (snd e)"
  by (simp add: aggregate_row_def Let_def)

lemma row_names_aggregate_row: "row_names (aggregate_row e) = names (snd e)"
  by (simp add: aggregate_row_def Let_def)

lemma row_country_aggregate_row: "row_country (aggregate_row e) = country (snd e)"
  by (simp add: aggregate_row_def Let_def)

lemma keys_sighted:
  "(v \<in> set (map row_puuid (map aggregate_row (playersMap (aggregate_files dir))))) = sighted dir v"
proof -
  let ?pm = "playersMap (aggregate_files dir)"
  have t: "tally (map_of ?pm k) (sightings_of k dir)" for k
    using tallies_aggregate_files [of dir] by (simp add: tallies_def sightings_of_def)
  have "(Some k \<in> Some ` fst ` set ?pm) = (sightings_of k dir \<noteq> [])" for k
  proof (cases "map_of ?pm k")
    case None
    with t [of k] show ?thesis by (auto simp: map_of_eq_None_iff)
  next
    case (Some a)
    then have "k \<in> fst ` set ?pm"
      by (metis domI dom_map_of_conv_image_fst)
    with Some t [of k] show ?thesis by simp
  qed
  then show ?thesis
    by (cases v) (auto simp: sighted_def row_puuid_aggregate_row image_iff)
qed

lemma rebuilt_table:
  "fst (normalizePlayersByPuuid tbl dir) =
   filter (\<lambda>x. \<not> sighted dir (row_puuid x)) (reset_scores tbl) @
   map aggregate_row (playersMap (aggregate_files dir))"
proof -
  let ?R = "map aggregate_row (playersMap (aggregate_files dir))"
  have keys: "map row_puuid ?R = map (\<lambda>e. Some (fst e)) (playersMap (aggregate_files dir))"
    by (simp add: row_puuid_aggregate_row)
  have "distinct (map fst (playersMap (aggregate_files dir)))"
    using tallies_aggregate_files [of dir] by (simp add: tallies_def)
  then have "distinct (map row_puuid ?R)"
    unfolding keys by (simp add: distinct_map inj_on_def)
  moreover have "None \<notin> set (map row_puuid ?R)"
    unfolding keys by auto
  ultimately have "fold insert_or_replace ?R (reset_scores tbl) =
      filter (\<lambda>x. row_puuid x \<notin> set (map row_puuid ?R)) (reset_scores tbl) @ ?R"
    by (rule fold_insert_or_replace)
  then show ?thesis
    by (simp only: keys_sighted normalizePlayersByPuuid_def Let_def fst_conv)
qed

lemma reset_scores_idem: "reset_scores (reset_scores tbl) = reset_scores tbl"
  by (simp add: reset_scores_def)

lemma reset_scores_filter:
  "reset_scores (filter (\<lambda>x. P (row_puuid x)) tbl) = filter (\<lambda>x. P (row_puuid x)) (reset_scores tbl)"
  by (induction tbl) (simp_all add: reset_scores_def)

lemma reset_scores_append: "reset_scores (xs @ ys) = reset_scores xs @ reset_scores ys"
  by (simp add: reset_scores_def)

lemma sighted_aggregate_row:
  "r \<in> set (map aggregate_row (playersMap (aggregate_files dir))) \<Longrightarrow> sighted dir (row_puuid r)"
  using keys_sighted [of "row_puuid r" dir] by auto

lemma filter_unsighted_rebuilt:
  "filter (\<lambda>x. \<not> sighted dir (row_puuid x))
     (reset_scores (map aggregate_row (playersMap (aggregate_files dir)))) = []"
proof -
  have "\<forall>x \<in> set (reset_scores (map aggregate_row (playersMap (aggregate_files dir)))).
          sighted dir (row_puuid x)"
    using sighted_aggregate_row [of _ dir] by (auto simp: reset_scores_def)
  then show ?thesis by (simp add: filter_empty_conv)
qed

section \<open>Idempotence of the full rebuild\<close>

text \<open>
  Claim C7. Running the full rebuild a second time on the table that the first run
  left, over the same directory, gives the same table: every row with the same puuid,
  names, feedscore, opscore, country and match\_count, in the same order.
\<close>

theorem normalizePlayersByPuuid_idempotent: "fst (normalizePlayersByPuuid (fst (normalizePlayersByPuuid tbl dir)) dir) =
   fst (normalizePlayersByPuuid tbl dir)"
  by (simp add: rebuilt_table reset_scores_append reset_scores_idem filter_unsighted_rebuilt
      reset_scores_filter [where P = "\<lambda>v. \<not> sighted dir v"])

theorem normalizePlayersByPuuid_idempotent_witness:
  "fst (normalizePlayersByPuuid
      (fst (normalizePlayersByPuuid [example_stored_alice, example_stored_bob] example_directory))
      example_directory) =
   fst (normalizePlayersByPuuid [example_stored_alice, example_stored_bob] example_directory)"
  using normalizePlayersByPuuid_idempotent [of "[example_stored_alice, example_stored_bob]" example_directory]
  by simp

section \<open>The sum of the match counts\<close>

lemma sum_filter_reset_scores:
  "sum_list (map row_match_count (filter P (reset_scores tbl))) = 0"
  by (induction tbl) (simp_all add: reset_scores_def)

lemma sum_rebuilt_table:
  "sum_list (map row_match_count (fst (normalizePlayersByPuuid tbl dir))) = int (length (sightings dir))"
proof -
  have "sum_list (map (\<lambda>e. match_count (snd e)) (playersMap (aggregate_files dir))) = int (length (sightings dir))"
    using tallies_aggregate_files [of dir] by (simp add: tallies_def)
  then show ?thesis
    by (simp add: rebuilt_table sum_filter_reset_scores comp_def row_match_count_aggregate_row)
qed

lemma objects_valid:
  "list_all valid_entry ps \<Longrightarrow>
   length (filter (\<lambda>p. truthy (puuid p)) (objects_before_null ps)) = length ps"
proof (induction ps)
  case Nil
  then show ?case by simp
next
  case (Cons e ps)
  then show ?case by (cases e) simp_all
qed

lemma counted_valid: "valid_match doc \<Longrightarrow> length (counted doc) = 10"
  by (cases doc) (simp_all add: valid_match_def counted_def objects_valid)

lemma counted_malformed: "malformed doc \<Longrightarrow> counted doc = []"
  by (cases doc) (simp_all add: malformed_def counted_def)

lemma length_sightings_valid:
  "list_all (\<lambda>f. valid_match (snd f) \<or> malformed (snd f)) fs \<Longrightarrow>
   length (concat (map (\<lambda>f. counted (snd f)) fs)) = 10 * length (filter (\<lambda>f. valid_match (snd f)) fs)"
proof (induction fs)
  case Nil
  then show ?case by simp
next
  case (Cons f fs)
  then show ?case
    by (cases "valid_match (snd f)") (auto simp: counted_valid counted_malformed)
qed

lemma valid_not_malformed: "valid_match doc \<Longrightarrow> \<not> malformed doc"
  by (cases doc) (simp_all add: valid_match_def malformed_def)

text \<open>
  Claim C8. When every \<^verbatim>\<open>.json\<close> file of the directory is a valid match (or a
  malformed document, which is skipped), the match counts of all rows of the table after
  a full rebuild add up to 10 times the number of valid matches, and \<open>totalMatches\<close> is
  that number.
\<close>

theorem match_count_sum:
  assumes "list_all (\<lambda>f. valid_match (snd f) \<or> malformed (snd f)) (json_files dir)"
  shows "sum_list (map row_match_count (fst (normalizePlayersByPuuid tbl dir))) =
           10 * int (length (filter (\<lambda>f. valid_match (snd f)) (json_files dir))) \<and>
         totalMatches (snd (normalizePlayersByPuuid tbl dir)) =
           length (filter (\<lambda>f. valid_match (snd f)) (json_files dir))"
proof -
  have "filter (\<lambda>f. \<not> malformed (snd f)) (json_files dir) = filter (\<lambda>f. valid_match (snd f)) (json_files dir)"
    using assms by (intro filter_cong) (auto simp: list_all_iff valid_not_malformed)
  then have "totalMatches (snd (normalizePlayersByPuuid tbl dir)) =
           length (filter (\<lambda>f. valid_match (snd f)) (json_files dir))"
    by (simp add: normalizePlayersByPuuid_def Let_def totalMatches_aggregate_files)
  moreover have "length (sightings dir) = 10 * length (filter (\<lambda>f. valid_match (snd f)) (json_files dir))"
    unfolding sightings_def using assms by (rule length_sightings_valid)
  ultimately show ?thesis
    by (simp add: sum_rebuilt_table)
qed

theorem match_count_sum_witness:
  "list_all (\<lambda>f. valid_match (snd f) \<or> malformed (snd f)) (json_files example_directory) \<and>
   sum_list (map row_match_count (fst (normalizePlayersByPuuid [example_stored_bob] example_directory))) = 20 \<and>
   totalMatches (snd (normalizePlayersByPuuid [example_stored_bob] example_directory)) = 2"
proof -
  have valid: "list_all (\<lambda>f. valid_match (snd f) \<or> malformed (snd f)) (json_files example_directory)"
    by (simp add: example_defs value_defs valid_match_def malformed_def)
  have "length (filter (\<lambda>f. valid_match (snd f)) (json_files example_directory)) = 2"
    by (simp add: example_defs value_defs valid_match_def malformed_def)
  with valid match_count_sum [OF valid, of "[example_stored_bob]"] show ?thesis
    by simp
qed

section \<open>The country column across a full rebuild\<close>

lemma reset_scores_mem:
  "r \<in> set tbl \<Longrightarrow>
   r\<lparr>row_opscore := Fin 0, row_feedscore := Fin 0, row_match_count := 0\<rparr> \<in> set (reset_scores tbl)"
  by (auto simp: reset_scores_def)

lemma mem_reset_scores:
  "r' \<in> set (reset_scores tbl) \<Longrightarrow>
   \<exists>r \<in> set tbl. r' = r\<lparr>row_opscore := Fin 0, row_feedscore := Fin 0, row_match_count := 0\<rparr>"
  by (auto simp: reset_scores_def)

lemma country_aggregate_files:
  "e \<in> set (playersMap (aggregate_files dir)) \<Longrightarrow> country (snd e) = None"
proof -
  assume e: "e \<in> set (playersMap (aggregate_files dir))"
  let ?pm = "playersMap (aggregate_files dir)"
  have d: "distinct (map fst ?pm)" and t: "tally (map_of ?pm (fst e)) (sightings_of (fst e) dir)"
    using tallies_aggregate_files [of dir] by (simp_all add: tallies_def sightings_of_def)
  from d e have "map_of ?pm (fst e) = Some (snd e)"
    by (cases e) simp
  with t show ?thesis by simp
qed

text \<open>
  Claim C3, amended. After a full rebuild, a row \<open>r\<close> that was in the table and whose
  puuid is not the key of an aggregated participant is still there with its puuid, names
  and country, and with feedscore, opscore and match\_count set to 0; the rows of the new
  table with such a puuid are exactly these. A row of the new table whose puuid is the
  key of an aggregated participant has the country NULL: the rebuild replaces the row
  and writes \<^verbatim>\<open>country: null\<close>, whatever country the old row had.
\<close>

theorem rebuild_country_frame:
  "(r \<in> set tbl \<and> \<not> sighted dir (row_puuid r) \<longrightarrow>
      r\<lparr>row_opscore := Fin 0, row_feedscore := Fin 0, row_match_count := 0\<rparr>
        \<in> set (fst (normalizePlayersByPuuid tbl dir))) \<and>
   (r' \<in> set (fst (normalizePlayersByPuuid tbl dir)) \<and> \<not> sighted dir (row_puuid r') \<longrightarrow>
      (\<exists>r \<in> set tbl. r' = r\<lparr>row_opscore := Fin 0, row_feedscore := Fin 0, row_match_count := 0\<rparr>)) \<and>
   (r' \<in> set (fst (normalizePlayersByPuuid tbl dir)) \<and> sighted dir (row_puuid r') \<longrightarrow>
      row_country r' = None)"
proof (intro conjI impI)
  assume "r \<in> set tbl \<and> \<not> sighted dir (row_puuid r)"
  then show "r\<lparr>row_opscore := Fin 0, row_feedscore := Fin 0, row_match_count := 0\<rparr>
        \<in> set (fst (normalizePlayersByPuuid tbl dir))"
    using reset_scores_mem [of r tbl] by (simp add: rebuilt_table)
next
  assume "r' \<in> set (fst (normalizePlayersByPuuid tbl dir)) \<and> \<not> sighted dir (row_puuid r')"
  then have "r' \<in> set (reset_scores tbl)"
    using sighted_aggregate_row [of r' dir] by (auto simp: rebuilt_table)
  then show "\<exists>r \<in> set tbl. r' = r\<lparr>row_opscore := Fin 0, row_feedscore := Fin 0, row_match_count := 0\<rparr>"
    by (rule mem_reset_scores)
next
  assume "r' \<in> set (fst (normalizePlayersByPuuid tbl dir)) \<and> sighted dir (row_puuid r')"
  then have "r' \<in> set (map aggregate_row (playersMap (aggregate_files dir)))"
    by (auto simp: rebuilt_table)
  then obtain e where "e \<in> set (playersMap (aggregate_files dir))" "r' = aggregate_row e"
    by auto
  then show "row_country r' = None"
    by (simp add: row_country_aggregate_row country_aggregate_files)
qed

theorem rebuild_country_frame_witness:
  "example_stored_bob \<in> set [example_stored_alice, example_stored_bob] \<and>
   \<not> sighted (example_solo 1800) (row_puuid example_stored_bob) \<and>
   sighted (example_solo 1800) (row_puuid example_stored_alice) \<and>
   fst (normalizePlayersByPuuid [example_stored_alice, example_stored_bob] (example_solo 1800)) =
     [example_stored_bob\<lparr>row_opscore := Fin 0, row_feedscore := Fin 0, row_match_count := 0\<rparr>,
      \<lparr>row_puuid = Some ''puuid-alice'', row_names = [''Alice#EUW''],
       row_feedscore = Fin (- 3.25), row_opscore = Fin 3.9, row_country = None,
       row_match_count = 1\<rparr>]"
  using rebuild_country_frame [of example_stored_bob "[example_stored_alice, example_stored_bob]" "example_solo 1800"
      "example_stored_bob\<lparr>row_opscore := Fin 0, row_feedscore := Fin 0, row_match_count := 0\<rparr>"]
    rebuild_country_frame [of example_stored_bob "[example_stored_alice, example_stored_bob]" "example_solo 1800"
      "\<lparr>row_puuid = Some ''puuid-alice'', row_names = [''Alice#EUW''],
       row_feedscore = Fin (- 3.25), row_opscore = Fin 3.9, row_country = None,
       row_match_count = 1\<rparr>"]
  by (simp add: example_defs rebuild_defs sighting_defs value_defs)

text \<open>
  The claim as stated fails: Alice's row has the country Hungary before the rebuild and
  NULL after it.
\<close>

theorem rebuild_clobbers_country:
  "fst (normalizePlayersByPuuid [example_stored_alice] (example_solo 1800)) =
     [\<lparr>row_puuid = Some ''puuid-alice'', row_names = [''Alice#EUW''],
       row_feedscore = Fin (- 3.25), row_opscore = Fin 3.9, row_country = None,
       row_match_count = 1\<rparr>]"
  by (simp add: example_defs rebuild_defs value_defs)

section \<open>Player identity\<close>

lemma filter_key_distinct:
  "distinct (map fst al) \<Longrightarrow> map_of al k = Some a \<Longrightarrow> filter (\<lambda>e. fst e = k) al = [(k, a)]"
proof (induction al)
  case Nil
  then show ?case by simp
next
  case (Cons e al)
  show ?case
  proof (cases "fst e = k")
    case True
    with Cons.prems have "k \<notin> fst ` set al"
      by simp
    then have "filter (\<lambda>e. fst e = k) al = []"
      by (auto simp: filter_empty_conv)
    with True Cons.prems show ?thesis by (cases e) simp
  next
    case False
    with Cons show ?thesis by simp
  qed
qed

lemma one_row_per_sighted_puuid:
  assumes "sightings_of k dir \<noteq> []"
  shows "\<exists>r. filter (\<lambda>x. row_puuid x = Some k) (fst (normalizePlayersByPuuid tbl dir)) = [r] \<and>
           set (row_names r) = display_name ` set (sightings_of k dir) \<and>
           row_match_count r = int (length (sightings_of k dir))"
proof -
  let ?pm = "playersMap (aggregate_files dir)"
  have d: "distinct (map fst ?pm)" and t: "tally (map_of ?pm k) (sightings_of k dir)"
    using tallies_aggregate_files [of dir] by (simp_all add: tallies_def sightings_of_def)
  from t assms obtain a where a: "map_of ?pm k = Some a"
    "set (names a) = display_name ` set (sightings_of k dir)"
    "match_count a = int (length (sightings_of k dir))"
    by (cases "map_of ?pm k") auto
  have old: "filter (\<lambda>x. row_puuid x = Some k)
      (filter (\<lambda>x. \<not> sighted dir (row_puuid x)) (reset_scores tbl)) = []"
    using assms by (auto simp: filter_empty_conv sighted_def)
  have "filter (\<lambda>x. row_puuid x = Some k) (map aggregate_row ?pm) =
      map aggregate_row (filter (\<lambda>e. fst e = k) ?pm)"
    by (simp add: filter_map comp_def row_puuid_aggregate_row)
  also have "\<dots> = [aggregate_row (k, a)]"
    by (simp add: filter_key_distinct [OF d a(1)])
  finally have "filter (\<lambda>x. row_puuid x = Some k) (fst (normalizePlayersByPuuid tbl dir)) =
      [aggregate_row (k, a)]"
    by (simp add: rebuilt_table old del: filter_filter)
  with a show ?thesis
    by (simp add: row_names_aggregate_row row_match_count_aggregate_row)
qed

lemma save_player_length:
  assumes "body_name player = Some name" and "name \<noteq> []"
  shows "length (snd (save_player raw player)) =
           (if name \<in> set (map row_names raw) then length raw else length raw + 1)"
proof (cases "find (\<lambda>r. row_names r = name) raw")
  case None
  then have "name \<notin> set (map row_names raw)"
    by (auto simp: find_None_iff)
  with None assms show ?thesis
    by (simp add: save_player_def truthy_def Let_def insert_or_replace_def)
next
  case (Some row)
  then have "name \<in> set (map row_names raw)"
    by (auto simp: find_Some_iff)
  with Some assms show ?thesis
    by (simp add: save_player_def truthy_def Let_def)
qed

text \<open>
  Claim C4, amended. The full rebuild resolves identity by puuid: for a puuid \<open>k\<close> that
  is the key of an aggregated participant, the table after the rebuild has exactly one
  row with that puuid; its names are the display names under which \<open>k\<close> was seen and its
  match\_count is the number of times \<open>k\<close> was seen. The incremental upsert
  \<^verbatim>\<open>/api/save-player\<close> receives no puuid and keys its decision on the display name:
  a request adds a row exactly when no stored row has the request's name in its
  \<^verbatim>\<open>names\<close> column.
\<close>

theorem identity_by_puuid_and_by_name:
  "(sightings_of k dir \<noteq> [] \<longrightarrow>
      (\<exists>r. filter (\<lambda>x. row_puuid x = Some k) (fst (normalizePlayersByPuuid tbl dir)) = [r] \<and>
           set (row_names r) = display_name ` set (sightings_of k dir) \<and>
           row_match_count r = int (length (sightings_of k dir)))) \<and>
   (body_name player = Some name \<and> name \<noteq> [] \<longrightarrow>
      length (snd (save_player raw player)) =
        (if name \<in> set (map row_names raw) then length raw else length raw + 1))"
  using one_row_per_sighted_puuid [of k dir tbl] save_player_length [of player name raw]
  by blast

theorem identity_by_puuid_and_by_name_witness:
  "sightings_of ''puuid-alice'' example_renamed = [example_alice ''EUW'', example_alice ''NA1''] \<and>
   filter (\<lambda>x. row_puuid x = Some ''puuid-alice'') (fst (normalizePlayersByPuuid [] example_renamed)) =
     [\<lparr>row_puuid = Some ''puuid-alice'', row_names = [''Alice#EUW'', ''Alice#NA1''],
       row_feedscore = Fin (- 3.25), row_opscore = Fin 4.37, row_country = None,
       row_match_count = 2\<rparr>] \<and>
   body_name (example_upsert ''NA1'') = Some ''Alice#NA1'' \<and>
   length (snd (save_player [example_raw_row 1] (example_upsert ''NA1''))) = 2 \<and>
   length (snd (save_player [example_raw_row 1] (example_upsert ''EUW''))) = 1"
  using identity_by_puuid_and_by_name [of "''puuid-alice''" example_renamed "[]" "example_upsert ''NA1''" "''Alice#NA1''"
      "[example_raw_row 1]"]
    identity_by_puuid_and_by_name [of "''puuid-alice''" example_renamed "[]" "example_upsert ''EUW''" "''Alice#EUW''"
      "[example_raw_row 1]"]
  by (simp add: example_defs rebuild_defs sighting_defs server_defs value_defs)

text \<open>
  The claim as stated fails: two upserts of the same player under two display names
  leave two rows, each with the match count 1.
\<close>

theorem save_player_keys_on_name:
  "snd (save_player (snd (save_player [] (example_upsert ''EUW''))) (example_upsert ''NA1'')) =
     [\<lparr>row_puuid = None, row_names = ''Alice#EUW'', row_feedscore = Fin (- 5.5),
       row_opscore = Fin 38.65, row_country = Some ''Unknown'', row_match_count = 1\<rparr>,
      \<lparr>row_puuid = None, row_names = ''Alice#NA1'', row_feedscore = Fin (- 5.5),
       row_opscore = Fin 38.65, row_country = Some ''Unknown'', row_match_count = 1\<rparr>]"
  by (simp add: server_defs example_defs value_defs insert_or_replace_def)

section \<open>The division by the game duration\<close>
























section \<open>Malformed documents\<close>

text \<open>
  The full rebuild skips a malformed document: the map and the counters stay as they
  were, one line goes to the console, and the loop goes on with the next file.
\<close>

lemma for_file_malformed:
  "malformed doc \<Longrightarrow>
   playersMap (for_file (name, doc) st) = playersMap st \<and>
   totalMatches (for_file (name, doc) st) = totalMatches st \<and>
   totalPlayers (for_file (name, doc) st) = totalPlayers st \<and>
   length (console (for_file (name, doc) st)) = length (console st) + 1"
  by (cases doc) (simp_all add: malformed_def)

text \<open>
  Claim C5. A run over a directory with a malformed document skips that document with
  a warning and still processes the valid documents. \<open>addNewPlayersFromMatches\<close> does not:
  on a directory whose first file is not parsed it ends with the SyntaxError and inserts
  no player of the valid match that follows. \<open>normalizePlayersByPuuid\<close> on the same directory
  writes one error line, counts the valid match and stores its two players.
\<close>

theorem addNewPlayers_aborts_on_unparseable:
  "fst (addNewPlayersFromMatches [] example_broken) = Some SyntaxError \<and>
   players (snd (addNewPlayersFromMatches [] example_broken)) = [] \<and>
   totalMatches (snd (normalizePlayersByPuuid [] example_broken)) = 1 \<and>
   console (snd (normalizePlayersByPuuid [] example_broken)) =
     [Error_processing_file ''broken.json'' SyntaxError] \<and>
   map row_puuid (fst (normalizePlayersByPuuid [] example_broken)) =
     [Some ''puuid-alice'', Some ''puuid-b'']"
  by (simp add: example_defs rebuild_defs adding_defs value_defs)

section \<open>The incremental upsert\<close>

lemma save_player_keeps_counts:
  "\<forall>r \<in> set tbl. 1 \<le> row_match_count r \<Longrightarrow>
   \<forall>r \<in> set (snd (save_player tbl player)). 1 \<le> row_match_count r"
proof (cases "truthy (body_name player)")
  case False
  assume "\<forall>r \<in> set tbl. 1 \<le> row_match_count r"
  with False show ?thesis by (simp add: save_player_def)
next
  case True
  assume inv: "\<forall>r \<in> set tbl. 1 \<le> row_match_count r"
  show ?thesis
  proof (cases "find (\<lambda>r. row_names r = the (body_name player)) tbl")
    case None
    with True inv show ?thesis
      by (auto simp: save_player_def Let_def insert_or_replace_def)
  next
    case (Some row)
    then have "row \<in> set tbl"
      by (auto simp: find_Some_iff)
    with inv have "1 \<le> row_match_count row" by simp
    with True Some inv show ?thesis
      by (auto simp: save_player_def Let_def or_one_def)
  qed
qed

text \<open>
  Claim C6. For an upsert with a name: when no stored row has that name, a row with
  match\_count 1 and the two scores of the request is added; when a row has it and its
  match\_count is at least 1, each score becomes (old * oldCount + new) / (oldCount + 1)
  in the arithmetic of the handler and match\_count becomes oldCount + 1, where old and
  oldCount are the score, as the handler reads it (a NULL as 0), and the match\_count of
  that row (the country becomes the one of the request). The scores are stored as
  computed: no normalisation is applied. The handler keeps every match\_count at least
  1, so on a table that only the handler wrote the count of a known player is always at
  least 1.
\<close>

theorem save_player_running_average:
  assumes "body_name player = Some name" and "name \<noteq> []"
  shows
  "(find (\<lambda>r. row_names r = name) tbl = None \<longrightarrow>
      snd (save_player tbl player) =
        tbl @ [\<lparr>row_puuid = None, row_names = name, row_feedscore = body_feedscore player,
                 row_opscore = body_opscore player, row_country = body_country player,
                 row_match_count = 1\<rparr>]) \<and>
   (find (\<lambda>r. row_names r = name) tbl = Some row \<and> 1 \<le> row_match_count row \<longrightarrow>
      snd (save_player tbl player) =
        map (\<lambda>r. if row_names r = name
                  then r\<lparr>row_feedscore :=
                           js_div
                             (js_add
                                (js_mul (column_number (row_feedscore row))
                                   (Fin (of_int (row_match_count row))))
                                (body_feedscore player))
                             (Fin (of_int (row_match_count row + 1))),
                         row_opscore :=
                           js_div
                             (js_add
                                (js_mul (column_number (row_opscore row))
                                   (Fin (of_int (row_match_count row))))
                                (body_opscore player))
                             (Fin (of_int (row_match_count row + 1))),
                         row_country := body_country player,
                         row_match_count := row_match_count row + 1\<rparr>
                  else r) tbl) \<and>
   ((\<forall>r \<in> set tbl. 1 \<le> row_match_count r) \<longrightarrow>
      (\<forall>r \<in> set (snd (save_player tbl player)). 1 \<le> row_match_count r))"
proof -
  have "1 \<le> row_match_count row \<Longrightarrow> or_one (row_match_count row) = row_match_count row"
    by (simp add: or_one_def)
  then show ?thesis
    using assms save_player_keeps_counts [of tbl player]
    by (auto simp: save_player_def truthy_def Let_def insert_or_replace_def)
qed

theorem save_player_running_average_witness:
  "body_name example_second_upsert = Some ''Alice#EUW'' \<and>
   find (\<lambda>r. row_names r = ''Alice#EUW'') [] = None \<and>
   snd (save_player [] example_second_upsert) =
     [\<lparr>row_puuid = None, row_names = ''Alice#EUW'', row_feedscore = Fin (- 5.5),
       row_opscore = Fin 38.5, row_country = Some ''Unknown'', row_match_count = 1\<rparr>] \<and>
   find (\<lambda>r. row_names r = ''Alice#EUW'') [example_raw_row 3] = Some (example_raw_row 3) \<and>
   1 \<le> row_match_count (example_raw_row 3) \<and>
   snd (save_player [example_raw_row 3] example_second_upsert) =
     [\<lparr>row_puuid = None, row_names = ''Alice#EUW'', row_feedscore = Fin 0.875,
       row_opscore = Fin 32.125, row_country = Some ''Unknown'', row_match_count = 4\<rparr>]"
  using save_player_running_average [of example_second_upsert "''Alice#EUW''" "[]"]
    save_player_running_average [of example_second_upsert "''Alice#EUW''" "[example_raw_row 3]" "example_raw_row 3"]
  by (simp add: server_defs example_defs value_defs example_second_upsert_def insert_or_replace_def)

section \<open>Saving a match document\<close>

text \<open>
  Claim C9. \<^verbatim>\<open>POST /api/save-match\<close> answers 400 and writes nothing when the body has
  no (or an empty) \<^verbatim>\<open>metadata.matchId\<close>; answers 200 and writes nothing when the file of
  the match exists; otherwise writes the document and answers 201. No existing file is
  ever changed, and saving the same match again changes nothing and never answers 201.
\<close>

theorem save_match_statuses:
  "(\<not> truthy (matchId body) \<longrightarrow> save_match path_join disk body = (400, disk)) \<and>
   (matchId body = Some m \<and> m \<noteq> [] \<and> disk (path_join (m @ ''.json'')) \<noteq> None \<longrightarrow>
      save_match path_join disk body = (200, disk)) \<and>
   (matchId body = Some m \<and> m \<noteq> [] \<and> disk (path_join (m @ ''.json'')) = None \<longrightarrow>
      save_match path_join disk body =
        (201, disk(path_join (m @ ''.json'') \<mapsto> stringified body))) \<and>
   (disk path = Some content \<longrightarrow> snd (save_match path_join disk body) path = Some content) \<and>
   (matchId again = matchId body \<longrightarrow>
      snd (save_match path_join (snd (save_match path_join disk body)) again) =
        snd (save_match path_join disk body) \<and>
      fst (save_match path_join (snd (save_match path_join disk body)) again) \<noteq> 201)"
  by (auto simp: save_match_def truthy_def Let_def split: option.splits)

theorem save_match_statuses_witness:
  "save_match example_path_join Map.empty example_match_body =
     (201, [''data/EUW1_1.json'' \<mapsto> ''{}'']) \<and>
   save_match example_path_join [''data/EUW1_1.json'' \<mapsto> ''{}''] example_match_body =
     (200, [''data/EUW1_1.json'' \<mapsto> ''{}'']) \<and>
   save_match example_path_join [''data/EUW1_1.json'' \<mapsto> ''{}'']
     \<lparr>matchId = None, stringified = ''{}''\<rparr> = (400, [''data/EUW1_1.json'' \<mapsto> ''{}''])"
  using save_match_statuses [of example_match_body example_path_join Map.empty "''EUW1_1''" "''data/EUW1_1.json''"
      "''{}''" example_match_body]
    save_match_statuses [of example_match_body example_path_join "[''data/EUW1_1.json'' \<mapsto> ''{}'']" "''EUW1_1''"
      "''data/EUW1_1.json''" "''{}''" example_match_body]
    save_match_statuses [of "\<lparr>matchId = None, stringified = ''{}''\<rparr>" example_path_join
      "[''data/EUW1_1.json'' \<mapsto> ''{}'']" "''EUW1_1''" "''data/EUW1_1.json''" "''{}''"
      example_match_body]
  by (simp add: server_defs example_defs value_defs)

section \<open>First insertion never touches a stored row\<close>

lemma row_puuid_new_player_row: "row_puuid (new_player_row p) = puuid p"
  by (simp add: new_player_row_def Let_def)

lemma new_player_row_fields:
  "row_match_count (new_player_row p) = 1 \<and> row_country (new_player_row p) = Some '' ''"
  by (simp add: new_player_row_def Let_def)

lemma column_key_Some: "column_key (Some k) = field_key (Some k)"
  by (simp add: column_key_def field_key_def)

lemma adds_only_add_participant:
  assumes "adds_only tbl st"
  shows "adds_only tbl (add_participant p st)"
proof (cases "field_key (puuid p) \<in> existingPuuids st")
  case True
  with assms show ?thesis by (simp add: add_participant_def)
next
  case False
  from assms obtain new where new: "players st = tbl @ new"
    "distinct (map row_puuid new)"
    "\<forall>r \<in> set new. row_match_count r = 1 \<and> row_country r = Some '' '' \<and>
           field_key (row_puuid r) \<in> existingPuuids st \<and>
           (row_puuid r \<noteq> None \<longrightarrow> row_puuid r \<notin> set (map row_puuid tbl))"
    "\<forall>r \<in> set tbl. column_key (row_puuid r) \<in> existingPuuids st"
    unfolding adds_only_def by blast
  have fresh_new: "puuid p \<notin> set (map row_puuid new)"
    using False new(3) by auto
  have fresh_tbl: "puuid p \<noteq> None \<longrightarrow> puuid p \<notin> set (map row_puuid tbl)"
  proof (cases "puuid p")
    case None
    then show ?thesis by simp
  next
    case (Some k)
    have "Some k \<notin> set (map row_puuid tbl)"
    proof
      assume "Some k \<in> set (map row_puuid tbl)"
      then obtain r where "r \<in> set tbl" "row_puuid r = Some k" by auto
      with new(4) have "column_key (Some k) \<in> existingPuuids st" by force
      with False Some show False by (simp add: column_key_Some)
    qed
    with Some show ?thesis by simp
  qed
  have ins: "insert_row (new_player_row p) (players st) = tbl @ (new @ [new_player_row p])"
    using fresh_new fresh_tbl
    by (cases "puuid p") (auto simp: insert_row_def row_puuid_new_player_row new(1))
  have "players (add_participant p st) = tbl @ (new @ [new_player_row p])"
    using False ins by (simp add: add_participant_def)
  moreover have "distinct (map row_puuid (new @ [new_player_row p]))"
    using new(2) fresh_new by (simp add: row_puuid_new_player_row)
  moreover have "\<forall>r \<in> set (new @ [new_player_row p]).
      row_match_count r = 1 \<and> row_country r = Some '' '' \<and>
      field_key (row_puuid r) \<in> existingPuuids (add_participant p st) \<and>
      (row_puuid r \<noteq> None \<longrightarrow> row_puuid r \<notin> set (map row_puuid tbl))"
    using new(3) fresh_tbl False
    by (auto simp: add_participant_def new_player_row_fields row_puuid_new_player_row)
  moreover have "\<forall>r \<in> set tbl. column_key (row_puuid r) \<in> existingPuuids (add_participant p st)"
    using new(4) False by (simp add: add_participant_def)
  ultimately show ?thesis
    unfolding adds_only_def by blast
qed

lemma adds_only_add_participants:
  "adds_only tbl st \<Longrightarrow> adds_only tbl (snd (add_participants es st))"
proof (induction es arbitrary: st)
  case Nil
  then show ?case by simp
next
  case (Cons e es)
  then show ?case by (cases e) (simp_all add: adds_only_add_participant)
qed

lemma adds_only_add_files:
  "adds_only tbl st \<Longrightarrow> adds_only tbl (snd (add_files fs st))"
proof (induction fs st rule: add_files.induct)
  case (4 name d ps files st)
  obtain err st' where r: "add_participants ps st = (err, st')"
    by (cases "add_participants ps st")
  from "4.prems" have mid: "adds_only tbl st'"
    using adds_only_add_participants [of tbl st ps] by (simp add: r)
  show ?case
  proof (cases err)
    case None
    from "4.IH" [OF r [symmetric] None mid] show ?thesis
      by (simp add: r None)
  next
    case (Some e)
    with mid show ?thesis by (simp add: r)
  qed
qed simp_all

lemma adds_only_initial:
  "adds_only tbl \<lparr>existingPuuids = set (map (\<lambda>r. column_key (row_puuid r)) tbl), players = tbl,
        newPlayerCount = 0\<rparr>"
  by (simp add: adds_only_def)

text \<open>
  Claim C10. After \<open>addNewPlayersFromMatches\<close>, also when an exception ended it, the table
  is the table before it followed by the new rows: no stored row is changed or deleted.
  Every new row has match\_count 1 and the placeholder country; no two new rows have
  the same puuid; and no new row has a puuid that a stored row had.
\<close>

theorem addNewPlayers_adds_only:
  "\<exists>new. players (snd (addNewPlayersFromMatches tbl dir)) = tbl @ new \<and>
      list_all (\<lambda>r. row_match_count r = 1 \<and> row_country r = Some '' '') new \<and>
      distinct (map row_puuid new) \<and>
      (\<forall>r \<in> set new. row_puuid r \<noteq> None \<longrightarrow> row_puuid r \<notin> set (map row_puuid tbl))"
proof -
  let ?r = "add_files (json_files dir)
      \<lparr>existingPuuids = set (map (\<lambda>r. column_key (row_puuid r)) tbl), players = tbl,
       newPlayerCount = 0\<rparr>"
  obtain err st where r: "?r = (err, st)"
    by (cases ?r)
  show ?thesis
  proof (cases err)
    case None
    have "adds_only tbl (snd ?r)"
      by (intro adds_only_add_files adds_only_initial)
    with r None have "adds_only tbl (snd (addNewPlayersFromMatches tbl dir))"
      by (simp add: addNewPlayersFromMatches_def)
    then show ?thesis
      unfolding adds_only_def list_all_iff by blast
  next
    case (Some e)
    with r have "players (snd (addNewPlayersFromMatches tbl dir)) = tbl @ []"
      by (simp add: addNewPlayersFromMatches_def)
    then show ?thesis
      by (intro exI [of _ "[]"]) simp
  qed
qed

theorem addNewPlayers_adds_only_witness:
  "players (snd (addNewPlayersFromMatches [example_stored_alice] example_rematch)) =
     [example_stored_alice] @ [new_player_row (example_other ''b'')] \<and>
   row_match_count (new_player_row (example_other ''b'')) = 1 \<and>
   row_puuid (new_player_row (example_other ''b'')) = Some ''puuid-b'' \<and>
   Some ''puuid-b'' \<notin> set (map row_puuid [example_stored_alice])"
  using addNewPlayers_adds_only [of "[example_stored_alice]" example_rematch]
  by (simp add: example_defs adding_defs value_defs)

end
